theory Spec2Isabelle
  imports Complex_Main "HOL-Library.AList"
begin

section \<open>Python values\<close>

text \<open>
  The values the bot writes to its store and tests for truth: \<open>None\<close>, strings and
  integers. \<open>py_str\<close> is Python's \<open>str()\<close>, \<open>truthy\<close> is Python's truth test
  (\<open>None\<close>, the empty string and \<open>0\<close> are false). A \<open>string\<close> stands for a Python
  \<open>str\<close> with one \<open>char\<close> per code point (code points below 256).
\<close>

datatype pyval = PNone | PStr string | PInt int

datatype error = JSONDecodeError | KeyError string | IndexError | AttributeError | ValueError | HandlerError string

definition digit_char :: "nat \<Rightarrow> char" where
  "digit_char n = ''0123456789'' ! n"

function str_nat :: "nat \<Rightarrow> string" where
  "str_nat n = (if n < 10 then [digit_char n] else str_nat (n div 10) @ [digit_char (n mod 10)])"
  by pat_completeness auto
termination
  by (relation "measure id") auto

declare str_nat.simps [simp del]

definition str_int :: "int \<Rightarrow> string" where
  "str_int i = (if i < 0 then CHR ''-'' # str_nat (nat (- i)) else str_nat (nat i))"

fun py_str :: "pyval \<Rightarrow> string" where
  "py_str PNone = ''None''"
| "py_str (PStr s) = s"
| "py_str (PInt i) = str_int i"

fun truthy :: "pyval \<Rightarrow> bool" where
  "truthy PNone = False"
| "truthy (PStr s) = (s \<noteq> [])"
| "truthy (PInt i) = (i \<noteq> 0)"

text \<open>The truth test of a value read back from the store: \<open>None\<close> or a string.\<close>

definition truthy_opt :: "string option \<Rightarrow> bool" where
  "truthy_opt v = (case v of None \<Rightarrow> False | Some s \<Rightarrow> s \<noteq> [])"

text \<open>\<open>dict(pairs)\<close> and \<open>d[k] = v\<close>: an insertion-ordered dictionary, a later pair
  for a key replaces the value in place.\<close>

definition dict_of :: "('k \<times> 'v) list \<Rightarrow> ('k \<times> 'v) list" where
  "dict_of pairs = fold (\<lambda>(k, v) d. AList.update k v d) pairs []"

text \<open>\<open>s.split(sep)\<close> for a one-character separator, and \<open>sep.join(parts)\<close>.\<close>

fun split_on :: "char \<Rightarrow> string \<Rightarrow> string list" where
  "split_on sep [] = [[]]"
| "split_on sep (c # cs) =
     (if c = sep then [] # split_on sep cs
      else (case split_on sep cs of [] \<Rightarrow> [[c]] | p # ps \<Rightarrow> (c # p) # ps))"

fun join :: "string \<Rightarrow> string list \<Rightarrow> string" where
  "join sep [] = []"
| "join sep [p] = p"
| "join sep (p # q # ps) = p @ sep @ join sep (q # ps)"

section \<open>The JSON texts of the edit history (\<open>json.dumps\<close>, \<open>json.loads\<close>)\<close>

text \<open>
  \<open>json.dumps\<close> with its default settings on a flat dictionary whose keys are strings
  or \<open>None\<close> (written as the key \<open>"null"\<close>) and whose values are strings or \<open>None\<close>:
  items separated by \<open>", "\<close>, key and value by \<open>": "\<close>, every character outside
  the printable ASCII range escaped.
\<close>

definition hex_char :: "nat \<Rightarrow> char" where
  "hex_char n = ''0123456789abcdef'' ! n"

definition json_escape :: "char \<Rightarrow> string" where
  "json_escape c =
     (if c = CHR 0x22 then [CHR 0x5C, CHR 0x22]
      else if c = CHR 0x5C then [CHR 0x5C, CHR 0x5C]
      else if c = CHR 0x0A then [CHR 0x5C, CHR ''n'']
      else if c = CHR 0x0D then [CHR 0x5C, CHR ''r'']
      else if c = CHR 0x09 then [CHR 0x5C, CHR ''t'']
      else if c = CHR 0x08 then [CHR 0x5C, CHR ''b'']
      else if c = CHR 0x0C then [CHR 0x5C, CHR ''f'']
      else if 32 \<le> (of_char c :: nat) \<and> (of_char c :: nat) \<le> 126 then [c]
      else [CHR 0x5C, CHR ''u'', CHR ''0'', CHR ''0'',
            hex_char ((of_char c :: nat) div 16), hex_char ((of_char c :: nat) mod 16)])"

definition json_quote :: "string \<Rightarrow> string" where
  "json_quote s = CHR 0x22 # concat (map json_escape s) @ [CHR 0x22]"

definition json_item :: "string option \<times> string option \<Rightarrow> string" where
  "json_item kv =
     json_quote (case fst kv of None \<Rightarrow> ''null'' | Some k \<Rightarrow> k) @ '': '' @
     (case snd kv of None \<Rightarrow> ''null'' | Some v \<Rightarrow> json_quote v)"

definition json_dumps :: "(string option \<times> string option) list \<Rightarrow> string" where
  "json_dumps d = CHR ''{'' # join '', '' (map json_item d) @ ''}''"

text \<open>
  \<open>json.loads\<close> on the texts above: a flat object of string keys with string or
  \<open>null\<close> values, whitespace allowed between the tokens. \<open>None\<close> is the
  \<open>JSONDecodeError\<close>; the decoder also reports it for JSON values of other kinds, which
  \<open>json_dumps\<close> never writes into the edit-history field.
\<close>

definition json_ws :: "char \<Rightarrow> bool" where
  "json_ws c = (c = CHR '' '' \<or> c = CHR 0x09 \<or> c = CHR 0x0A \<or> c = CHR 0x0D)"

definition skip_ws :: "string \<Rightarrow> string" where
  "skip_ws s = dropWhile json_ws s"

definition json_unescape :: "char \<Rightarrow> char option" where
  "json_unescape e =
     (if e = CHR 0x22 then Some (CHR 0x22)
      else if e = CHR 0x5C then Some (CHR 0x5C)
      else if e = CHR ''/'' then Some (CHR ''/'')
      else if e = CHR ''n'' then Some (CHR 0x0A)
      else if e = CHR ''r'' then Some (CHR 0x0D)
      else if e = CHR ''t'' then Some (CHR 0x09)
      else if e = CHR ''b'' then Some (CHR 0x08)
      else if e = CHR ''f'' then Some (CHR 0x0C)
      else None)"

definition hex_val :: "char \<Rightarrow> nat option" where
  "hex_val c =
     (let n = (of_char c :: nat) in
      if 48 \<le> n \<and> n \<le> 57 then Some (n - 48)
      else if 97 \<le> n \<and> n \<le> 102 then Some (n - 87)
      else if 65 \<le> n \<and> n \<le> 70 then Some (n - 55)
      else None)"

definition hex4 :: "char \<Rightarrow> char \<Rightarrow> char \<Rightarrow> char \<Rightarrow> char option" where
  "hex4 a b c d =
     (case (hex_val a, hex_val b, hex_val c, hex_val d) of
        (Some w, Some x, Some y, Some z) \<Rightarrow>
          (let n = ((w * 16 + x) * 16 + y) * 16 + z in if n < 256 then Some (char_of n) else None)
      | _ \<Rightarrow> None)"

text \<open>The characters after an opening quote, up to the closing one: the decoded string
  and the text that follows it.\<close>

fun json_string_body :: "string \<Rightarrow> (string \<times> string) option" where
  "json_string_body [] = None"
| "json_string_body (c # cs) =
     (if c = CHR 0x22 then Some ([], cs)
      else if c = CHR 0x5C then
        (case cs of
           [] \<Rightarrow> None
         | e # cs1 \<Rightarrow>
             (if e = CHR ''u'' then
                (case cs1 of
                   a # b # x # d # cs2 \<Rightarrow>
                     (case hex4 a b x d of
                        None \<Rightarrow> None
                      | Some ch \<Rightarrow> map_option (\<lambda>(s, r). (ch # s, r)) (json_string_body cs2))
                 | _ \<Rightarrow> None)
              else
                (case json_unescape e of
                   None \<Rightarrow> None
                 | Some ch \<Rightarrow> map_option (\<lambda>(s, r). (ch # s, r)) (json_string_body cs1))))
      else if (of_char c :: nat) < 32 then None
      else map_option (\<lambda>(s, r). (c # s, r)) (json_string_body cs))"

text \<open>A value: a string or \<open>null\<close>.\<close>

definition json_value :: "string \<Rightarrow> (string option \<times> string) option" where
  "json_value s =
     (case s of
        [] \<Rightarrow> None
      | c # cs \<Rightarrow>
          (if c = CHR 0x22 then map_option (\<lambda>(v, r). (Some v, r)) (json_string_body cs)
           else if take 4 s = ''null'' then Some (None, drop 4 s)
           else None))"

lemma skip_ws_length: "length (skip_ws s) \<le> length s"
  unfolding skip_ws_def by (induction s) auto

lemma json_string_body_length:
  "json_string_body s = Some (x, r) \<Longrightarrow> length r < length s"
proof (induction s arbitrary: x r rule: json_string_body.induct)
  case 1
  then show ?case by simp
next
  case (2 c cs)
  then show ?case
    by (fastforce split: if_splits list.splits option.splits)
qed

lemma json_value_length: "json_value s = Some (v, r) \<Longrightarrow> length r < length s"
  unfolding json_value_def
  by (auto split: list.splits if_splits dest: json_string_body_length)

text \<open>The members of an object after its opening brace, up to and including the closing
  brace, which must end the text.\<close>

function json_members :: "string \<Rightarrow> (string option \<times> string option) list option" where
  "json_members s =
     (case skip_ws s of
        [] \<Rightarrow> None
      | q # s1 \<Rightarrow>
          (if q \<noteq> CHR 0x22 then None
           else
             (case json_string_body s1 of
                None \<Rightarrow> None
              | Some (k, s2) \<Rightarrow>
                  (case skip_ws s2 of
                     [] \<Rightarrow> None
                   | colon # s3 \<Rightarrow>
                       (if colon \<noteq> CHR '':'' then None
                        else
                          (case json_value (skip_ws s3) of
                             None \<Rightarrow> None
                           | Some (v, s4) \<Rightarrow>
                               (case skip_ws s4 of
                                  [] \<Rightarrow> None
                                | d # s5 \<Rightarrow>
                                    (if d = CHR '','' then
                                       map_option (\<lambda>ms. (Some k, v) # ms) (json_members s5)
                                     else if d = CHR ''}'' \<and> skip_ws s5 = [] then
                                       Some [(Some k, v)]
                                     else None))))))))"
  by pat_completeness auto
termination
proof (relation "measure length", goal_cases)
  case 1
  then show ?case by simp
next
  case (2 s q s1 kr k s2 colon s3 vr v s4 d s5)
  have a: "length s1 < length s"
    using skip_ws_length [of s] 2(1) by simp
  have b: "length s2 < length s1"
    using json_string_body_length [of s1 k s2] 2(3,4) by auto
  have c: "length s3 < length s2"
    using skip_ws_length [of s2] 2(5) by simp
  have d: "length s4 < length s3"
    using json_value_length [of "skip_ws s3" v s4] skip_ws_length [of s3] 2(7,8) by auto
  have e: "length s5 < length s4"
    using skip_ws_length [of s4] 2(9) by simp
  from a b c d e show ?case by simp
qed

declare json_members.simps [simp del]

definition json_loads :: "string \<Rightarrow> (string option \<times> string option) list option" where
  "json_loads s =
     (case skip_ws s of
        [] \<Rightarrow> None
      | c # s1 \<Rightarrow>
          (if c \<noteq> CHR ''{'' then None
           else
             (case skip_ws s1 of
                [] \<Rightarrow> None
              | d # s2 \<Rightarrow>
                  (if d = CHR ''}'' then (if skip_ws s2 = [] then Some [] else None)
                   else map_option dict_of (json_members s1)))))"

section \<open>The Key-Field Store (\<open>core/sql.py\<close>)\<close>

text \<open>
  One table per plugin name, created empty on first access; a row is
  \<open>(key, field, value)\<close> with the value stored as text. \<open>sql_set\<close> is
  \<open>INSERT OR REPLACE\<close> under the primary key \<open>(key, field)\<close>: the rows with that
  key and field go, the new row is added. \<open>sql_get\<close> is \<open>fetchone()\<close> with the
  fallback \<open>None\<close>.
\<close>

type_synonym row = "string \<times> string \<times> string"

type_synonym sql = "string \<Rightarrow> row list"

definition row_is :: "string \<Rightarrow> string \<Rightarrow> row \<Rightarrow> bool" where
  "row_is key field r = (fst r = key \<and> fst (snd r) = field)"

definition sql_set :: "sql \<Rightarrow> string \<Rightarrow> string \<Rightarrow> string \<Rightarrow> pyval \<Rightarrow> sql" where
  "sql_set db plugin_name key field v =
     db(plugin_name :=
          filter (\<lambda>r. \<not> row_is key field r) (db plugin_name) @ [(key, field, py_str v)])"

definition sql_get :: "sql \<Rightarrow> string \<Rightarrow> string \<Rightarrow> string \<Rightarrow> string option" where
  "sql_get db plugin_name key field =
     (case filter (row_is key field) (db plugin_name) of
        [] \<Rightarrow> None
      | r # _ \<Rightarrow> Some (snd (snd r)))"

definition get_all_fields :: "sql \<Rightarrow> string \<Rightarrow> string \<Rightarrow> (string \<times> string) list" where
  "get_all_fields db plugin_name key =
     dict_of (map snd (filter (\<lambda>r. fst r = key) (db plugin_name)))"

definition get_all_keys :: "sql \<Rightarrow> string \<Rightarrow> (string \<times> (string \<times> string) list) list" where
  "get_all_keys db plugin_name =
     fold (\<lambda>(key, field, v) result.
             AList.update key
               (AList.update field v (case map_of result key of None \<Rightarrow> [] | Some fs \<Rightarrow> fs))
               result)
          (db plugin_name) []"

definition sql_delete :: "sql \<Rightarrow> string \<Rightarrow> string \<Rightarrow> string option \<Rightarrow> sql" where
  "sql_delete db plugin_name key field =
     (case field of
        Some f \<Rightarrow>
          (if f \<noteq> [] then db(plugin_name := filter (\<lambda>r. \<not> row_is key f r) (db plugin_name))
           else db(plugin_name := filter (\<lambda>r. fst r \<noteq> key) (db plugin_name)))
      | None \<Rightarrow> db(plugin_name := filter (\<lambda>r. fst r \<noteq> key) (db plugin_name)))"

section \<open>The history and correction ledger (\<open>core/xmpp.py\<close>)\<close>

text \<open>
  \<open>get_jid_from_nick\<close> asks the transport's roster and is a parameter \<open>gj\<close> here;
  \<open>now\<close> is \<open>int(time.time())\<close>. \<open>entry_key\<close> is the f-string
  \<open>f"{muc}_{message_id}"\<close> (and \<open>f"{muc}_{user}"\<close> for the user states).
\<close>

definition entry_key :: "string \<Rightarrow> string \<Rightarrow> string" where
  "entry_key muc ident = muc @ ''_'' @ ident"

definition store_chat_history ::
  "(string \<Rightarrow> string \<Rightarrow> string option) \<Rightarrow> sql \<Rightarrow> string \<Rightarrow> string \<Rightarrow> string \<Rightarrow> pyval \<Rightarrow> string \<Rightarrow> int \<Rightarrow> sql"
where
  "store_chat_history gj db muc nick message_id stanza_id body now =
     (let key = entry_key muc message_id;
          db1 = (case gj muc nick of
                   None \<Rightarrow> db
                 | Some jid \<Rightarrow> sql_set db ''bot_chat_history'' key ''jid'' (PStr jid));
          db2 = sql_set db1 ''bot_chat_history'' key ''nick'' (PStr nick);
          db3 = sql_set db2 ''bot_chat_history'' key ''stanza_id'' stanza_id;
          db4 = sql_set db3 ''bot_chat_history'' key ''body'' (PStr body)
      in sql_set db4 ''bot_chat_history'' key ''timestamp'' (PInt now))"

text \<open>\<open>_store_correction_history\<close>: \<open>json.loads\<close> may raise before anything is
  written; \<open>x or y\<close> is \<open>x\<close> when \<open>x\<close> is true, else \<open>y\<close>.\<close>

definition store_correction_history ::
  "sql \<Rightarrow> string \<Rightarrow> string \<Rightarrow> string \<Rightarrow> string \<Rightarrow> pyval \<Rightarrow> string \<Rightarrow> int \<Rightarrow> error + sql"
where
  "store_correction_history db muc nick message_id replace_id stanza_id body now =
     (let key = entry_key muc replace_id;
          v_body = sql_get db ''bot_chat_history'' key ''body'';
          v_timestamp = sql_get db ''bot_chat_history'' key ''timestamp'';
          v_edit_timestamp = sql_get db ''bot_chat_history'' key ''edit_timestamp'';
          v_edit_history = sql_get db ''bot_chat_history'' key ''edit_history''
      in case json_loads (case v_edit_history of
                            None \<Rightarrow> ''{}''
                          | Some text \<Rightarrow> if text \<noteq> [] then text else ''{}'') of
           None \<Rightarrow> Inl JSONDecodeError
         | Some edit_history \<Rightarrow>
             (let history_key = (if truthy_opt v_edit_timestamp then v_edit_timestamp else v_timestamp);
                  edit_history' = AList.update history_key v_body edit_history;
                  db1 = sql_set db ''bot_chat_history'' key ''body'' (PStr body);
                  db2 = sql_set db1 ''bot_chat_history'' key ''edit_timestamp'' (PInt now)
              in Inr (sql_set db2 ''bot_chat_history'' key ''edit_history''
                        (PStr (json_dumps edit_history')))))"

text \<open>\<open>get_history_message\<close>: \<open>None\<close> when the entry has no timestamp, else the
  dictionary of its fields, each read back with \<open>sql_get\<close>.\<close>

definition get_history_message :: "sql \<Rightarrow> string \<Rightarrow> string \<Rightarrow> (string \<times> string option) list option" where
  "get_history_message db muc message_id =
     (let key = entry_key muc message_id in
      if sql_get db ''bot_chat_history'' key ''timestamp'' = None then None
      else Some (dict_of (map (\<lambda>(field, _). (field, sql_get db ''bot_chat_history'' key field))
                            (get_all_fields db ''bot_chat_history'' key))))"

text \<open>A message of the room-join backfill, with the clock reading taken while it is
  processed. \<open>replace_id\<close> and \<open>stanza_id\<close> are \<open>None\<close> when the stanza has none.\<close>

record history_message =
  h_from :: string
  h_body :: string
  h_id :: string
  h_replace_id :: "string option"
  h_stanza_id :: pyval
  h_now :: int

text \<open>\<open>_process_chat_history\<close>: an exception other than \<open>KeyError\<close> leaves the loop;
  what was written before stays written.\<close>

fun process_chat_history ::
  "(string \<Rightarrow> string \<Rightarrow> string option) \<Rightarrow> sql \<Rightarrow> string \<Rightarrow> history_message list \<Rightarrow> sql \<times> error option"
where
  "process_chat_history gj db muc [] = (db, None)"
| "process_chat_history gj db muc (message # history) =
     (let stored_message = get_history_message db muc (h_id message);
          nick = last (split_on (CHR ''/'') (h_from message));
          db1 = (if stored_message = None then
                   store_chat_history gj db muc nick (h_id message) (h_stanza_id message)
                     (h_body message) (h_now message)
                 else db)
      in case h_replace_id message of
           None \<Rightarrow> process_chat_history gj db1 muc history
         | Some replace_id \<Rightarrow>
             (case store_correction_history db1 muc nick (h_id message) replace_id
                     (h_stanza_id message) (h_body message) (h_now message) of
                Inl e \<Rightarrow> (db1, Some e)
              | Inr db2 \<Rightarrow> process_chat_history gj db2 muc history))"

section \<open>The bot: configuration, plugins, in-memory state (\<open>core/xmpp.py\<close>)\<close>

text \<open>
  The configuration of a room (\<open>self.mucs[muc]\<close>) is a dictionary; the model keeps its
  list-valued, string-valued and boolean options by name. \<open>self.mucs.get(muc, {})\<close> is
  the empty configuration for a room that has none.
\<close>

record muc_config =
  lists :: "string \<rightharpoonup> string list"
  strs :: "string \<rightharpoonup> string"
  flags :: "string \<rightharpoonup> bool"

definition no_config :: muc_config where
  "no_config = \<lparr>lists = Map.empty, strs = Map.empty, flags = Map.empty\<rparr>"

text \<open>
  A plugin instance: its module name, the handler methods it has (\<open>hasattr\<close>) and
  whether a handler returns or raises. What a handler does besides is the plugin's own
  business and is not part of the model; the bot records each call it makes in
  \<open>calls\<close> and each exception it catches and logs in \<open>errors\<close>.
\<close>

datatype outcome = Returned | Raised string

record plugin =
  module :: string
  has_attr :: "string \<Rightarrow> bool"
  run_handler :: "string \<Rightarrow> outcome"

text \<open>The mirror \<open>self.user_states\<close>: room \<open>\<rightarrow>\<close> user \<open>\<rightarrow>\<close> state. A value under a
  top-level key is a dictionary of users or, after an assignment such as
  \<open>self.user_states["role"] = role\<close>, a plain string.\<close>

record user_state =
  role :: string
  affiliation :: string
  status :: string
  first_seen :: pyval

datatype mirror_val = Users "string \<rightharpoonup> user_state" | Scalar string

record bot =
  user_states :: "string \<rightharpoonup> mirror_val"
  sql :: sql
  joined_mucs :: "string list"
  mucs :: "string \<rightharpoonup> muc_config"
  plugins :: "plugin list"
  boundjid_bare :: string
  bot_nick :: string
  calls :: "(string \<times> string) list"
  errors :: "string list"
  warnings :: "string list"

definition muc_cfg :: "bot \<Rightarrow> string \<Rightarrow> muc_config" where
  "muc_cfg b muc = (case mucs b muc of None \<Rightarrow> no_config | Some c \<Rightarrow> c)"

subsection \<open>User states\<close>

text \<open>\<open>_save_user_state\<close>; an argument left out is \<open>PNone\<close>. The result is the store
  and the warnings logged.\<close>

definition save_user_state ::
  "sql \<Rightarrow> string \<Rightarrow> string \<Rightarrow> pyval \<Rightarrow> pyval \<Rightarrow> pyval \<Rightarrow> pyval \<Rightarrow> sql \<times> string list"
where
  "save_user_state d muc user v_role v_affiliation v_status v_first_seen =
     (let key = entry_key muc user;
          d1 = (if truthy v_role then sql_set d ''bot_user_states'' key ''role'' v_role else d);
          d2 = (if truthy v_affiliation then sql_set d1 ''bot_user_states'' key ''affiliation'' v_affiliation else d1);
          d3 = (if truthy v_status then sql_set d2 ''bot_user_states'' key ''status'' v_status else d2)
      in if truthy v_first_seen then
           (if truthy_opt (sql_get d3 ''bot_user_states'' key ''first_seen'') then
              (d3, [''Blocked attempt to overwrite first_seen for '' @ key])
            else (sql_set d3 ''bot_user_states'' key ''first_seen'' v_first_seen, []))
         else (d3, []))"

text \<open>\<open>_load_user_states\<close>: \<open>key.split("_", 1)\<close> must give two parts, else the
  unpacking raises.\<close>

fun split_first :: "char \<Rightarrow> string \<Rightarrow> (string \<times> string) option" where
  "split_first sep [] = None"
| "split_first sep (c # cs) =
     (if c = sep then Some ([], cs)
      else map_option (\<lambda>(a, b). (c # a, b)) (split_first sep cs))"

definition dict_get :: "('k \<times> string) list \<Rightarrow> 'k \<Rightarrow> string \<Rightarrow> string" where
  "dict_get d k fallback = (case map_of d k of None \<Rightarrow> fallback | Some v \<Rightarrow> v)"

fun load_states ::
  "(string \<times> (string \<times> string) list) list \<Rightarrow> (string \<rightharpoonup> mirror_val) \<Rightarrow> error + (string \<rightharpoonup> mirror_val)"
where
  "load_states [] m = Inr m"
| "load_states ((key, field_map) # rest) m =
     (case split_first (CHR ''_'') key of
        None \<Rightarrow> Inl ValueError
      | Some (muc, user) \<Rightarrow>
          (let users = (case m muc of Some (Users us) \<Rightarrow> us | _ \<Rightarrow> Map.empty);
               st = \<lparr>role = dict_get field_map ''role'' [],
                      affiliation = dict_get field_map ''affiliation'' [],
                      status = dict_get field_map ''status'' [],
                      first_seen = PStr (dict_get field_map ''first_seen'' [])\<rparr>
           in load_states rest (m(muc \<mapsto> Users (users(user \<mapsto> st))))))"

definition load_user_states :: "sql \<Rightarrow> error + (string \<rightharpoonup> mirror_val)" where
  "load_user_states d = load_states (get_all_keys d ''bot_user_states'') Map.empty"

subsection \<open>Presence events and the plugins\<close>

text \<open>
  A presence stanza: \<open>str(presence["from"])\<close>, \<open>presence['muc']['nick']\<close>, the bare
  JID of \<open>presence['muc']['jid']\<close> when the stanza shows one, role, affiliation and
  \<open>presence["type"]\<close>.
\<close>

record presence =
  p_from :: string
  p_muc_nick :: string
  p_muc_jid :: "string option"
  p_role :: string
  p_affiliation :: string
  p_type :: string

text \<open>One call of a plugin's handler inside \<open>try\<close>/\<open>except Exception\<close>: the call is
  made, an exception is logged.\<close>

definition call_handler :: "plugin \<Rightarrow> string \<Rightarrow> bot \<Rightarrow> bot" where
  "call_handler pl handler_method b =
     (let b1 = b\<lparr>calls := calls b @ [(module pl, handler_method)]\<rparr> in
      case run_handler pl handler_method of
        Returned \<Rightarrow> b1
      | Raised e \<Rightarrow> b1\<lparr>errors := errors b1 @ [e]\<rparr>)"

text \<open>\<open>plugin in disabled_plugins\<close> in \<open>_handle_presence_event\<close> compares the plugin
  instance itself with the names in the list; an instance of a plugin class (no
  \<open>__eq__\<close> of its own) equals no string.\<close>

definition instance_in :: "plugin \<Rightarrow> string list \<Rightarrow> bool" where
  "instance_in pl names = False"

definition event_handler_map :: "string \<rightharpoonup> string" where
  "event_handler_map =
     [''room_join'' \<mapsto> ''handle_room_join'',
      ''role_change'' \<mapsto> ''handle_role_change'',
      ''affiliation_change'' \<mapsto> ''handle_affiliation_change'',
      ''status_change'' \<mapsto> ''handle_status_change'']"

fun presence_loop :: "string \<Rightarrow> string list \<Rightarrow> plugin list \<Rightarrow> bot \<Rightarrow> bot" where
  "presence_loop handler_method disabled_plugins [] b = b"
| "presence_loop handler_method disabled_plugins (pl # pls) b =
     (if instance_in pl disabled_plugins then presence_loop handler_method disabled_plugins pls b
      else if has_attr pl handler_method then
        presence_loop handler_method disabled_plugins pls (call_handler pl handler_method b)
      else presence_loop handler_method disabled_plugins pls b)"

definition handle_presence_event :: "string \<Rightarrow> string list \<Rightarrow> bot \<Rightarrow> bot" where
  "handle_presence_event event_type disabled_plugins b =
     (case event_handler_map event_type of
        None \<Rightarrow> b\<lparr>errors := errors b @ [''Unknown event type: '' @ event_type]\<rparr>
      | Some handler_method \<Rightarrow> presence_loop handler_method disabled_plugins (plugins b) b)"

text \<open>\<open>_handle_state_changes\<close>. \<open>user_state\<close> is the dictionary the caller read from
  the mirror (\<open>None\<close> for the empty dictionary \<open>{}\<close>, whose lookup raises
  \<open>KeyError\<close>). After each detected change the plugins are told, then the new value
  is assigned to \<open>self.user_states["role"]\<close> (and likewise \<open>"affiliation"\<close>,
  \<open>"status"\<close>) and saved.\<close>

definition save_into :: "bot \<Rightarrow> sql \<times> string list \<Rightarrow> bot" where
  "save_into b r = b\<lparr>sql := fst r, warnings := warnings b @ snd r\<rparr>"

definition handle_state_changes ::
  "string \<Rightarrow> string \<Rightarrow> user_state option \<Rightarrow> presence \<Rightarrow> string list \<Rightarrow> bot \<Rightarrow> bot \<times> error option"
where
  "handle_state_changes muc user user_state pres disabled_plugins b =
     (case user_state of
        None \<Rightarrow> (b, Some (KeyError ''role''))
      | Some st \<Rightarrow>
          (let b1 = (if p_role pres \<noteq> role st then
                       (let c = handle_presence_event ''role_change'' disabled_plugins b;
                            c1 = c\<lparr>user_states := (user_states c)(''role'' \<mapsto> Scalar (p_role pres))\<rparr>
                        in save_into c1 (save_user_state (sql c1) muc user (PStr (p_role pres)) PNone PNone PNone))
                     else b);
               b2 = (if p_affiliation pres \<noteq> affiliation st then
                       (let c = handle_presence_event ''affiliation_change'' disabled_plugins b1;
                            c1 = c\<lparr>user_states := (user_states c)(''affiliation'' \<mapsto> Scalar (p_affiliation pres))\<rparr>
                        in save_into c1 (save_user_state (sql c1) muc user PNone (PStr (p_affiliation pres)) PNone PNone))
                     else b1);
               b3 = (if p_type pres \<noteq> status st then
                       (let c = handle_presence_event ''status_change'' disabled_plugins b2;
                            c1 = c\<lparr>user_states := (user_states c)(''status'' \<mapsto> Scalar (p_type pres))\<rparr>
                        in save_into c1 (save_user_state (sql c1) muc user PNone PNone (PStr (p_type pres)) PNone))
                     else b2)
           in (b3, None)))"

text \<open>
  \<open>handle_groupchat_presence\<close>. \<open>join_muc\<close> (the transport's join and the backfill
  that follows it) is a parameter; \<open>now\<close> is \<open>int(time.time())\<close>. \<open>track_user\<close> is the
  part of the body after the test for the bot's own presence, \<open>rekey_user\<close> the body
  of \<open>if user in self.user_states[muc]\<close> on a nickname change, \<open>observe_user\<close> the
  final \<open>if user not in self.user_states[muc]\<close> with its two branches. The body runs inside
  \<open>try\<close>/\<open>except Exception\<close>: what it changed before an exception stays changed, the
  exception is logged.
\<close>

definition rekey_user :: "string \<Rightarrow> string \<Rightarrow> string \<Rightarrow> presence \<Rightarrow> (string \<rightharpoonup> user_state) \<Rightarrow> bot \<Rightarrow> bot" where
  "rekey_user muc user newnick pres us b =
     (case us user of
        None \<Rightarrow> b
      | Some st \<Rightarrow>
          (let b1 = b\<lparr>user_states := (user_states b)(muc \<mapsto> Users ((us(user := None))(newnick \<mapsto> st)))\<rparr>;
               b2 = b1\<lparr>sql := sql_delete (sql b1) ''user_states'' user None\<rparr>
           in save_into b2 (save_user_state (sql b2) muc user
                (PStr (p_role pres)) (PStr (p_affiliation pres)) (PStr (p_type pres)) PNone)))"

definition new_user :: "string \<Rightarrow> string \<Rightarrow> presence \<Rightarrow> int \<Rightarrow> string list \<Rightarrow> (string \<rightharpoonup> user_state) \<Rightarrow> bot \<Rightarrow> bot" where
  "new_user muc user pres now disabled_plugins us b =
     (let st = \<lparr>role = p_role pres, affiliation = p_affiliation pres, status = p_type pres,
                 first_seen = PInt now\<rparr>;
          b1 = b\<lparr>user_states := (user_states b)(muc \<mapsto> Users (us(user \<mapsto> st)))\<rparr>;
          b2 = save_into b1 (save_user_state (sql b1) muc user
                 (PStr (p_role pres)) (PStr (p_affiliation pres)) (PStr (p_type pres)) (PInt now))
      in handle_presence_event ''room_join'' disabled_plugins b2)"

definition observe_user ::
  "string \<Rightarrow> string \<Rightarrow> user_state option \<Rightarrow> presence \<Rightarrow> int \<Rightarrow> string list \<Rightarrow> bot \<Rightarrow> bot \<times> error option"
where
  "observe_user muc user user_state pres now disabled_plugins b =
     (case user_states b muc of
        Some (Users us) \<Rightarrow>
          (if us user = None then (new_user muc user pres now disabled_plugins us b, None)
           else handle_state_changes muc user user_state pres disabled_plugins b)
      | _ \<Rightarrow> (b, Some AttributeError))"

definition track_user :: "string \<Rightarrow> string \<Rightarrow> presence \<Rightarrow> int \<Rightarrow> bot \<Rightarrow> bot \<times> error option" where
  "track_user muc nick pres now b =
     (let newnick = (if p_muc_nick pres \<noteq> nick then Some (p_muc_nick pres) else None);
          jid = p_muc_jid pres;
          jid_visible = truthy_opt jid;
          user = (case jid of Some j \<Rightarrow> if j \<noteq> [] then j else nick | None \<Rightarrow> nick);
          disabled_plugins = (case lists (muc_cfg b muc) ''disabled_plugins'' of
                                None \<Rightarrow> [] | Some l \<Rightarrow> l);
          b1 = (if user_states b muc = None
                then b\<lparr>user_states := (user_states b)(muc \<mapsto> Users Map.empty)\<rparr> else b)
      in case user_states b1 muc of
           Some (Users us) \<Rightarrow>
             (let user_state = us user in
              if truthy_opt newnick \<and> \<not> jid_visible then
                observe_user muc (p_muc_nick pres) user_state pres now disabled_plugins
                  (rekey_user muc user (p_muc_nick pres) pres us b1)
              else observe_user muc user user_state pres now disabled_plugins b1)
         | _ \<Rightarrow> (b1, Some AttributeError))"

definition presence_body :: "(string \<Rightarrow> bot \<Rightarrow> bot) \<Rightarrow> presence \<Rightarrow> int \<Rightarrow> bot \<Rightarrow> bot \<times> error option" where
  "presence_body join_muc pres now b =
     (case split_on (CHR ''/'') (p_from pres) of
        muc # nick # _ \<Rightarrow>
          (if p_muc_jid pres = Some (boundjid_bare b) then
             (if p_type pres = ''unavailable'' then
                (let b1 = b\<lparr>joined_mucs := remove1 muc (joined_mucs b)\<rparr> in
                 if flags (muc_cfg b1 muc) ''auto_rejoin'' = Some True then (join_muc muc b1, None)
                 else (b1, None))
              else (b, None))
           else track_user muc nick pres now b)
      | _ \<Rightarrow> (b, Some IndexError))"

definition handle_groupchat_presence :: "(string \<Rightarrow> bot \<Rightarrow> bot) \<Rightarrow> presence \<Rightarrow> int \<Rightarrow> bot \<Rightarrow> bot" where
  "handle_groupchat_presence join_muc pres now b =
     (case presence_body join_muc pres now b of
        (b', None) \<Rightarrow> b'
      | (b', Some e) \<Rightarrow> b'\<lparr>errors := errors b' @ [''Error handling presence'']\<rparr>)"

subsection \<open>Message events and the plugins\<close>

text \<open>
  \<open>_send_message_to_plugins\<close> for a message from the room \<open>muc\<close>
  (\<open>msg["from"].bare\<close>). The name of a plugin is the last component of its module
  path. \<open>_get_disabled_plugins_for_muc\<close> reads the room option
  \<open>"disabled=_plugins"\<close>, \<open>_get_whitelist_plugins_for_muc\<close> the option
  \<open>"whitelist_plugins"\<close> (\<open>None\<close> when the room has none).
\<close>

definition get_disabled_plugins_for_muc :: "bot \<Rightarrow> string \<Rightarrow> string list" where
  "get_disabled_plugins_for_muc b muc =
     (case lists (muc_cfg b muc) ''disabled=_plugins'' of None \<Rightarrow> [] | Some l \<Rightarrow> l)"

definition get_whitelist_plugins_for_muc :: "bot \<Rightarrow> string \<Rightarrow> string list option" where
  "get_whitelist_plugins_for_muc b muc = lists (muc_cfg b muc) ''whitelist_plugins''"

fun message_loop :: "string \<Rightarrow> string list \<Rightarrow> string list option \<Rightarrow> plugin list \<Rightarrow> bot \<Rightarrow> bot" where
  "message_loop message_type disabled_plugins whitelist_plugins [] b = b"
| "message_loop message_type disabled_plugins whitelist_plugins (pl # pls) b =
     (let plugin_name = last (split_on (CHR ''.'') (module pl)) in
      if plugin_name \<in> set disabled_plugins \<or>
         (case whitelist_plugins of None \<Rightarrow> False | Some wl \<Rightarrow> plugin_name \<notin> set wl)
      then message_loop message_type disabled_plugins whitelist_plugins pls b
      else if has_attr pl (''handle_'' @ message_type) then
        message_loop message_type disabled_plugins whitelist_plugins pls
          (call_handler pl (''handle_'' @ message_type) b)
      else message_loop message_type disabled_plugins whitelist_plugins pls b)"

definition send_message_to_plugins :: "string \<Rightarrow> string \<Rightarrow> bot \<Rightarrow> bot" where
  "send_message_to_plugins muc message_type b =
     message_loop message_type (get_disabled_plugins_for_muc b muc)
       (get_whitelist_plugins_for_muc b muc) (plugins b) b"

text \<open>
  \<open>handle_reactions\<close>: its test is \<open>if self._should_ignore_groupchat_message:\<close>, the
  truth value of the bound method itself, and a bound method is true (its class defines
  neither \<open>__bool__\<close> nor \<open>__len__\<close>).
\<close>

definition truthy_method :: "string \<Rightarrow> bool" where
  "truthy_method name = True"

definition handle_reactions :: "string \<Rightarrow> bot \<Rightarrow> bot" where
  "handle_reactions muc b =
     (if truthy_method ''_should_ignore_groupchat_message'' then b
      else send_message_to_plugins muc ''reaction'' b)"

section \<open>The command registry and dispatcher (\<open>core/commands.py\<close>)\<close>

subsection \<open>Strings\<close>

text \<open>\<open>str.isspace\<close>, \<open>str.lower\<close>, \<open>str.strip()\<close> and \<open>str.split()[0]\<close> on code
  points below 256; \<open>f"{x}"\<close> of a value that may be \<open>None\<close>.\<close>

definition py_isspace :: "char \<Rightarrow> bool" where
  "py_isspace c =
     (let n = (of_char c :: nat) in (9 \<le> n \<and> n \<le> 13) \<or> (28 \<le> n \<and> n \<le> 32) \<or> n = 133 \<or> n = 160)"

definition py_lower_char :: "char \<Rightarrow> char" where
  "py_lower_char c =
     (let n = (of_char c :: nat) in
      if (65 \<le> n \<and> n \<le> 90) \<or> (192 \<le> n \<and> n \<le> 222 \<and> n \<noteq> 215) then char_of (n + 32) else c)"

definition lower :: "string \<Rightarrow> string" where
  "lower s = map py_lower_char s"

definition strip :: "string \<Rightarrow> string" where
  "strip s = rev (dropWhile py_isspace (rev (dropWhile py_isspace s)))"

definition startswith :: "string \<Rightarrow> string \<Rightarrow> bool" where
  "startswith s prefix = (take (length prefix) s = prefix)"

definition first_token :: "string \<Rightarrow> error + string" where
  "first_token s =
     (case takeWhile (\<lambda>c. \<not> py_isspace c) (dropWhile py_isspace s) of
        [] \<Rightarrow> Inl IndexError
      | tok \<Rightarrow> Inr tok)"

definition fmt :: "string option \<Rightarrow> string" where
  "fmt v = (case v of None \<Rightarrow> ''None'' | Some x \<Rightarrow> x)"

subsection \<open>\<open>levenshtein_distance\<close>\<close>

text \<open>The inner loop over \<open>enumerate(s2)\<close> and the outer loop over \<open>enumerate(s1)\<close>,
  with the rows as lists read by index.\<close>

fun inner_loop :: "'a \<Rightarrow> 'a list \<Rightarrow> nat \<Rightarrow> nat list \<Rightarrow> nat list \<Rightarrow> nat list" where
  "inner_loop c1 [] j previous_row current_row = current_row"
| "inner_loop c1 (c2 # rest) j previous_row current_row =
     (let insertions = previous_row ! (j + 1) + 1;
          deletions = current_row ! j + 1;
          substitutions = previous_row ! j + (if c1 \<noteq> c2 then 1 else 0)
      in inner_loop c1 rest (j + 1) previous_row
           (current_row @ [min insertions (min deletions substitutions)]))"

fun outer_loop :: "'a list \<Rightarrow> 'a list \<Rightarrow> nat \<Rightarrow> nat list \<Rightarrow> nat list" where
  "outer_loop [] s2 i previous_row = previous_row"
| "outer_loop (c1 # rest) s2 i previous_row =
     outer_loop rest s2 (i + 1) (inner_loop c1 s2 0 previous_row [i + 1])"

definition levenshtein_distance :: "'a list \<Rightarrow> 'a list \<Rightarrow> nat" where
  "levenshtein_distance s1 s2 =
     (let a = (if length s1 < length s2 then s2 else s1);
          b = (if length s1 < length s2 then s1 else s2)
      in if length b = 0 then length a
         else last (outer_loop a b 0 [0..<length b + 1]))"

subsection \<open>Commands and the handler\<close>

text \<open>
  The parameter bundle of a handler (without the reference to the bot), a \<open>Command\<close>
  object and the \<open>CommandHandler\<close>. Command objects are shared between
  \<open>self.commands\<close> and the lists in \<open>self.categories\<close>, so they live in \<open>objects\<close> and
  are named by their index there. The handler record also carries what it reads from
  \<open>self.bot\<close> (admins, rooms, default prefix and cooldown) and two records of its
  effects: the messages handed to \<open>send_message_processed\<close> (\<open>mto\<close>, \<open>mbody\<close>,
  \<open>mtype\<close>) and the handler functions run. A handler function returns or raises; times
  (\<open>time.time()\<close>) and cooldowns are real numbers. The key of \<open>last_used\<close> is the user,
  \<open>f"{muc}/{nick}"\<close> in a room and otherwise the JID, which may be \<open>None\<close>.
\<close>

record command_params =
  cp_body :: string
  cp_muc :: "string option"
  cp_nick :: "string option"
  cp_jid :: "string option"
  cp_quote :: "string option"

record command =
  c_name :: string
  c_plugin :: string
  c_function :: "command_params \<Rightarrow> outcome"
  c_category :: "string option"
  c_aliases :: "string list"
  c_cooldown :: real
  c_hidden :: bool
  c_admin :: bool
  c_last_used :: "string option \<rightharpoonup> real"

record command_handler =
  objects :: "command list"
  commands :: "(string \<times> nat) list"
  categories :: "string \<rightharpoonup> nat list"
  show_command_suggestion :: bool
  run_command_suggestion :: bool
  admins :: "string list"
  rooms :: "string \<rightharpoonup> muc_config"
  default_prefix :: string
  default_command_cooldown :: real
  sent :: "(string option \<times> string \<times> string) list"
  ran :: "(string \<times> command_params) list"

text \<open>\<open>register_command\<close> with \<open>Command.__init__\<close>: \<open>aliases or []\<close>,
  \<open>cooldown or default\<close>, the new object appended to its category's list when the
  category is true, and stored under its name.\<close>

definition register_command ::
  "command_handler \<Rightarrow> string \<Rightarrow> string \<Rightarrow> (command_params \<Rightarrow> outcome) \<Rightarrow> string option \<Rightarrow>
   string list option \<Rightarrow> real option \<Rightarrow> bool \<Rightarrow> bool \<Rightarrow> command_handler"
where
  "register_command h cname plugin_name fn category aliases cooldown hidden admin =
     (let cmd = \<lparr>c_name = cname, c_plugin = plugin_name, c_function = fn, c_category = category,
                  c_aliases = (case aliases of None \<Rightarrow> [] | Some al \<Rightarrow> al),
                  c_cooldown = (case cooldown of None \<Rightarrow> default_command_cooldown h
                                | Some cd \<Rightarrow> if cd \<noteq> 0 then cd else default_command_cooldown h),
                  c_hidden = hidden, c_admin = admin, c_last_used = Map.empty\<rparr>;
          ident = length (objects h);
          h1 = h\<lparr>objects := objects h @ [cmd]\<rparr>;
          h2 = (case category of
                  None \<Rightarrow> h1
                | Some k \<Rightarrow>
                    if k \<noteq> [] then
                      h1\<lparr>categories := (categories h1)(k \<mapsto>
                            (case categories h1 k of None \<Rightarrow> [] | Some l \<Rightarrow> l) @ [ident])\<rparr>
                    else h1)
      in h2\<lparr>commands := AList.update cname ident (commands h2)\<rparr>)"

text \<open>\<open>Command.call\<close>. The scan of the category's commands keeps the flag
  \<open>category_cooldown\<close> and the running \<open>last_used_time\<close>; \<open>int(x)\<close> truncates towards
  zero.\<close>

definition get_last_used :: "command \<Rightarrow> string option \<Rightarrow> real" where
  "get_last_used c user = (case c_last_used c user of None \<Rightarrow> 0 | Some t \<Rightarrow> t)"

fun category_scan :: "command list \<Rightarrow> string option \<Rightarrow> bool \<times> real \<Rightarrow> bool \<times> real" where
  "category_scan [] user acc = acc"
| "category_scan (c # cs) user (category_cooldown, last_used_time) =
     (let last_used_in_category = get_last_used c user in
      if last_used_in_category \<noteq> 0 \<and> last_used_in_category > last_used_time
      then category_scan cs user (True, last_used_in_category)
      else category_scan cs user (category_cooldown, last_used_time))"

definition py_int :: "real \<Rightarrow> int" where
  "py_int x = (if 0 \<le> x then \<lfloor>x\<rfloor> else \<lceil>x\<rceil>)"

definition user_key :: "command_params \<Rightarrow> string option" where
  "user_key cp =
     (if truthy_opt (cp_muc cp) then Some (fmt (cp_muc cp) @ ''/'' @ fmt (cp_nick cp))
      else cp_jid cp)"

definition cooldown_message ::
  "command_handler \<Rightarrow> command \<Rightarrow> int \<Rightarrow> string \<Rightarrow> string option \<Rightarrow> bool \<Rightarrow> command_handler"
where
  "cooldown_message h self remaining command_name user category_cooldown =
     (let body =
            (if category_cooldown then
               ''Commands of category '' @ [CHR 0x27] @ fmt (c_category self) @ [CHR 0x27] @
               '' are on cooldown. Try again in '' @ str_int (remaining + 1) @ '' second(s).''
             else
               ''Command '' @ [CHR 0x27] @ command_name @ [CHR 0x27] @
               '' is on cooldown. Try again in '' @ str_int (remaining + 1) @ '' second(s).'')
      in h\<lparr>sent := sent h @ [(user, body, ''chat'')]\<rparr>)"

definition effective_last_used :: "command_handler \<Rightarrow> command \<Rightarrow> string option \<Rightarrow> bool \<times> real" where
  "effective_last_used h self user =
     (case c_category self of
        None \<Rightarrow> (False, get_last_used self user)
      | Some k \<Rightarrow>
          if k \<noteq> [] then
            category_scan
              (map (\<lambda>i. objects h ! i) (case categories h k of None \<Rightarrow> [] | Some l \<Rightarrow> l))
              user (False, get_last_used self user)
          else (False, get_last_used self user))"

definition call :: "command_handler \<Rightarrow> nat \<Rightarrow> command_params \<Rightarrow> real \<Rightarrow> command_handler \<times> outcome" where
  "call h ident cp current_time =
     (let self = objects h ! ident;
          user = user_key cp;
          category_cooldown = fst (effective_last_used h self user);
          last_used_time = snd (effective_last_used h self user)
      in if current_time - last_used_time < c_cooldown self then
           (cooldown_message h self (py_int (c_cooldown self - (current_time - last_used_time)))
              (c_name self) user category_cooldown, Returned)
         else
           (let self' = self\<lparr>c_last_used := (c_last_used self)(user \<mapsto> current_time)\<rparr>;
                h1 = h\<lparr>objects := (objects h)[ident := self'], ran := ran h @ [(c_name self, cp)]\<rparr>
            in (h1, c_function self cp)))"

text \<open>\<open>_send_suggested_command\<close>. \<open>min_distance\<close> starts as \<open>float('inf')\<close>, here
  \<open>None\<close>; the loop runs over \<open>self.commands\<close> in insertion order, each name with
  the object \<open>self.commands[suggested_command]\<close> stored under it.\<close>

fun suggestion_loop ::
  "command_handler \<Rightarrow> bool \<Rightarrow> string \<Rightarrow> (string \<times> nat) list \<Rightarrow> string option \<times> nat option \<Rightarrow>
   string option \<times> nat option"
where
  "suggestion_loop h is_admin cmd_name [] acc = acc"
| "suggestion_loop h is_admin cmd_name ((suggested_command, ident) # rest) (best_suggestion, min_distance) =
     (let is_admin_cmd = c_admin (objects h ! ident) in
      if (is_admin_cmd \<and> is_admin) \<or> \<not> is_admin_cmd then
        (let distance = levenshtein_distance cmd_name suggested_command in
         if (case min_distance of None \<Rightarrow> True | Some m \<Rightarrow> distance < m)
         then suggestion_loop h is_admin cmd_name rest (Some suggested_command, Some distance)
         else suggestion_loop h is_admin cmd_name rest (best_suggestion, min_distance))
      else suggestion_loop h is_admin cmd_name rest (best_suggestion, min_distance))"

definition send_suggested_command ::
  "command_handler \<Rightarrow> string \<Rightarrow> string option \<Rightarrow> string option \<Rightarrow> string option \<Rightarrow>
   command_handler \<times> string option"
where
  "send_suggested_command h cmd_name muc nick jid =
     (if length cmd_name > 15 then (h, None)
      else if length cmd_name < 5 then (h, None)
      else
        (let user = (if truthy_opt muc then Some (fmt muc @ ''/'' @ fmt nick) else jid);
             is_admin = (case jid of None \<Rightarrow> False | Some j \<Rightarrow> j \<in> set (admins h));
             r = suggestion_loop h is_admin cmd_name (commands h) (None, None)
         in case snd r of
              None \<Rightarrow> (h, None)
            | Some min_distance \<Rightarrow>
                if min_distance \<ge> length cmd_name \<or> min_distance > 2 then (h, None)
                else if run_command_suggestion h then (h, fst r)
                else
                  (h\<lparr>sent := sent h @
                       [(user,
                         [CHR 0x27] @ cmd_name @ [CHR 0x27] @ '' is not a valid command, did you mean '' @
                         [CHR 0x27] @ fmt (fst r) @ [CHR 0x27] @ ''?'',
                         ''chat'')]\<rparr>,
                   None)))"

text \<open>
  \<open>_handle_command\<close>. \<open>gj\<close> is \<open>get_jid_from_nick\<close>. The result is the handler and
  either the exception that left the function or the returned \<open>is_command\<close>.
  \<open>resolve_aliases\<close> is the loop over \<open>self.commands.values()\<close>; \<open>execute_command\<close>
  is the part from the per-room checks on, with \<open>room_refuses\<close> the checks of the
  command's plugin against the room's disabled list and whitelist.
\<close>

fun resolve_aliases :: "command list \<Rightarrow> string \<Rightarrow> string" where
  "resolve_aliases [] cmd_name = cmd_name"
| "resolve_aliases (c # cs) cmd_name =
     (if cmd_name \<in> set (c_aliases c) then resolve_aliases cs (c_name c)
      else resolve_aliases cs cmd_name)"

definition room_list :: "command_handler \<Rightarrow> string \<Rightarrow> string \<Rightarrow> string list option" where
  "room_list h muc opt = (case rooms h muc of None \<Rightarrow> None | Some cfg \<Rightarrow> lists cfg opt)"

definition room_refuses :: "command_handler \<Rightarrow> string \<Rightarrow> command \<Rightarrow> bool" where
  "room_refuses h muc c =
     (let disabled_plugins = (case room_list h muc ''disabled_plugins'' of None \<Rightarrow> [] | Some l \<Rightarrow> l);
          whitelist_plugins = room_list h muc ''whitelist_plugins''
      in c_plugin c \<in> set disabled_plugins \<or>
         (case whitelist_plugins of None \<Rightarrow> False | Some wl \<Rightarrow> c_plugin c \<notin> set wl))"

definition execute_command ::
  "command_handler \<Rightarrow> string \<Rightarrow> string \<Rightarrow> string option \<Rightarrow> string option \<Rightarrow> string option \<Rightarrow>
   string option \<Rightarrow> real \<Rightarrow> command_handler \<times> (error + bool)"
where
  "execute_command h cmd_name msg_body muc nick jid quote now =
     (if truthy_opt muc \<and>
         cmd_name \<in> set (case room_list h (fmt muc) ''disabled_commands'' of None \<Rightarrow> [] | Some l \<Rightarrow> l)
      then (h, Inr False)
      else
        (case map_of (commands h) cmd_name of
           None \<Rightarrow> (h, Inl (KeyError cmd_name))
         | Some ident \<Rightarrow>
             (if truthy_opt muc \<and> room_refuses h (fmt muc) (objects h ! ident) then (h, Inr False)
              else
                (let is_admin = (case jid of None \<Rightarrow> False | Some j \<Rightarrow> j \<in> set (admins h));
                     is_admin_cmd = c_admin (objects h ! ident)
                 in if (is_admin_cmd \<and> is_admin) \<or> \<not> is_admin_cmd then
                      (case call h ident
                              \<lparr>cp_body = msg_body, cp_muc = muc, cp_nick = nick, cp_jid = jid,
                               cp_quote = quote\<rparr> now of
                         (h1, Returned) \<Rightarrow> (h1, Inr True)
                       | (h1, Raised e) \<Rightarrow> (h1, Inl (HandlerError e)))
                    else (h, Inr False)))))"

definition handle_command ::
  "(string \<Rightarrow> string \<Rightarrow> string option) \<Rightarrow> command_handler \<Rightarrow> string \<Rightarrow> string \<Rightarrow> string option \<Rightarrow>
   string option \<Rightarrow> string option \<Rightarrow> string option \<Rightarrow> real \<Rightarrow> command_handler \<times> (error + bool)"
where
  "handle_command gj h msg_body prefix muc nick jid quote now =
     (let jid1 = (if \<not> truthy_opt jid \<and> truthy_opt muc \<and> truthy_opt nick
                  then gj (fmt muc) (fmt nick) else jid);
          body = lower (strip msg_body)
      in if \<not> startswith body prefix \<or> length body \<le> length prefix then (h, Inr False)
         else
           (case first_token (drop (length prefix) body) of
              Inl e \<Rightarrow> (h, Inl e)
            | Inr token \<Rightarrow>
                (let cmd_name = resolve_aliases (map (\<lambda>(_, i). objects h ! i) (commands h)) token in
                 if map_of (commands h) cmd_name = None then
                   (if show_command_suggestion h then
                      (case send_suggested_command h cmd_name muc nick jid1 of
                         (h1, None) \<Rightarrow> (h1, Inr False)
                       | (h1, Some suggested) \<Rightarrow>
                           execute_command h1 suggested msg_body muc nick jid1 quote now)
                    else (h, Inr False))
                 else execute_command h cmd_name msg_body muc nick jid1 quote now)))"

section \<open>Properties of the store and the ledger\<close>

lemma row_is_tuple [simp]: "row_is k' f' (k, f, v) = (k = k' \<and> f = f')"
  by (simp add: row_is_def)

lemma filter_row_is_other:
  "k' \<noteq> k \<or> f' \<noteq> f \<Longrightarrow>
   filter (row_is k' f') (filter (\<lambda>r. \<not> row_is k f r) rows) = filter (row_is k' f') rows"
  by (induction rows) (auto simp: row_is_def)

lemma filter_row_is_same:
  "filter (row_is k f) (filter (\<lambda>r. \<not> row_is k f r) rows) = []"
  by (induction rows) auto

lemma sql_get_set_same [simp]:
  "sql_get (sql_set db t k f v) t k f = Some (py_str v)"
  by (simp add: sql_get_def sql_set_def filter_row_is_same del: filter_filter)

lemma sql_get_set_other [simp]:
  "t' \<noteq> t \<or> k' \<noteq> k \<or> f' \<noteq> f \<Longrightarrow> sql_get (sql_set db t k f v) t' k' f' = sql_get db t' k' f'"
  by (auto simp: sql_get_def sql_set_def filter_row_is_other simp del: filter_filter)

definition entry_rows :: "sql \<Rightarrow> string \<Rightarrow> string \<Rightarrow> row list" where
  "entry_rows db key field = filter (row_is key field) (db ''bot_chat_history'')"

lemma entry_rows_set_same [simp]:
  "entry_rows (sql_set db ''bot_chat_history'' k f v) k f = [(k, f, py_str v)]"
  by (simp add: entry_rows_def sql_set_def filter_row_is_same del: filter_filter)

lemma entry_rows_set_other [simp]:
  "k' \<noteq> k \<or> f' \<noteq> f \<Longrightarrow> entry_rows (sql_set db t k f v) k' f' = entry_rows db k' f'"
  by (auto simp: entry_rows_def sql_set_def filter_row_is_other simp del: filter_filter)

lemma map_of_dict_of: "map_of (dict_of ps) = map_of (rev ps)"
proof -
  have "map_of (fold (\<lambda>(k, v) d. AList.update k v d) ps d0) = map_of d0 ++ map_of (rev ps)" for d0
    by (induction ps arbitrary: d0) (auto simp: update_conv' map_add_def fun_eq_iff split: option.splits)
  then show ?thesis by (simp add: dict_of_def)
qed

lemma map_of_keyed:
  "map_of (map (\<lambda>(f, _). (f, g f)) xs) x = (if x \<in> fst ` set xs then Some (g x) else None)"
  by (induction xs) (auto simp: image_iff)

lemma sql_get_None_iff:
  "sql_get db t key f = None \<longleftrightarrow> f \<notin> fst ` snd ` {r \<in> set (db t). fst r = key}"
proof -
  have "sql_get db t key f = None \<longleftrightarrow> filter (row_is key f) (db t) = []"
    by (simp add: sql_get_def split: list.splits)
  also have "\<dots> \<longleftrightarrow> (\<forall>r \<in> set (db t). \<not> row_is key f r)"
    by (simp add: filter_empty_conv)
  also have "\<dots> \<longleftrightarrow> f \<notin> fst ` snd ` {r \<in> set (db t). fst r = key}"
    by (auto simp: row_is_def image_iff)
  finally show ?thesis .
qed

lemma get_all_fields_keys:
  "fst ` set (get_all_fields db t key) = fst ` snd ` {r \<in> set (db t). fst r = key}"
proof -
  have "fst ` set (get_all_fields db t key) = dom (map_of (get_all_fields db t key))"
    by (simp add: dom_map_of_conv_image_fst)
  also have "\<dots> = fst ` set (map snd (filter (\<lambda>r. fst r = key) (db t)))"
    by (simp add: get_all_fields_def map_of_dict_of dom_map_of_conv_image_fst)
  finally show ?thesis by auto
qed

lemma get_history_message_lookup:
  assumes "sql_get db ''bot_chat_history'' (entry_key muc mid) ''timestamp'' \<noteq> None"
  shows "\<exists>entry. get_history_message db muc mid = Some entry \<and>
           (\<forall>f. map_of entry f = map_option Some (sql_get db ''bot_chat_history'' (entry_key muc mid) f))"
proof -
  let ?key = "entry_key muc mid"
  let ?g = "\<lambda>f. sql_get db ''bot_chat_history'' ?key f"
  let ?entry = "dict_of (map (\<lambda>(field, _). (field, ?g field)) (get_all_fields db ''bot_chat_history'' ?key))"
  have 1: "get_history_message db muc mid = Some ?entry"
    using assms by (simp add: get_history_message_def Let_def)
  have 2: "map_of ?entry f = map_option Some (?g f)" for f
  proof (cases "?g f")
    case None
    then show ?thesis
      by (simp add: map_of_dict_of rev_map map_of_keyed get_all_fields_keys
          sql_get_None_iff [symmetric])
  next
    case (Some v)
    then have "f \<in> fst ` snd ` {r \<in> set (db ''bot_chat_history''). fst r = ?key}"
      using sql_get_None_iff [of db "''bot_chat_history''" ?key f] by auto
    then show ?thesis
      using Some by (simp add: map_of_dict_of rev_map map_of_keyed get_all_fields_keys)
  qed
  from 1 2 show ?thesis by blast
qed

lemma get_history_message_None_iff:
  "get_history_message db muc mid = None \<longleftrightarrow>
   sql_get db ''bot_chat_history'' (entry_key muc mid) ''timestamp'' = None"
  by (simp add: get_history_message_def Let_def)

lemma process_stored_no_replace:
  assumes "sql_get db ''bot_chat_history'' (entry_key muc (h_id m)) ''timestamp'' \<noteq> None"
    and "h_replace_id m = None"
  shows "process_chat_history gj db muc [m] = (db, None)"
  using assms by (auto simp: get_history_message_None_iff Let_def)


definition json_plain :: "char \<Rightarrow> bool" where
  "json_plain c = (32 \<le> (of_char c :: nat) \<and> (of_char c :: nat) \<le> 126 \<and> c \<noteq> CHR 0x22 \<and> c \<noteq> CHR 0x5C)"

definition plain :: "string \<Rightarrow> bool" where
  "plain s = list_all json_plain s"

definition plain_item :: "string option \<times> string option \<Rightarrow> bool" where
  "plain_item kv = ((case fst kv of None \<Rightarrow> False | Some k \<Rightarrow> plain k) \<and>
                    (case snd kv of None \<Rightarrow> True | Some v \<Rightarrow> plain v))"

lemma json_escape_plain: "json_plain c \<Longrightarrow> json_escape c = [c]"
  by (auto simp: json_plain_def json_escape_def)

lemma json_string_body_plain:
  "plain s \<Longrightarrow> json_string_body (concat (map json_escape s) @ CHR 0x22 # r) = Some (s, r)"
proof (induction s)
  case Nil
  then show ?case by simp
next
  case (Cons c s)
  then have c: "json_plain c" and s: "plain s" by (simp_all add: plain_def)
  have "\<not> (of_char c :: nat) < 32" "c \<noteq> CHR 0x22" "c \<noteq> CHR 0x5C"
    using c by (auto simp: json_plain_def)
  then show ?case
    using Cons.IH [OF s] by (simp add: json_escape_plain [OF c])
qed

lemma skip_ws_nonws: "\<not> json_ws c \<Longrightarrow> skip_ws (c # s) = c # s"
  by (simp add: skip_ws_def)

lemma skip_ws_space [simp]: "skip_ws (CHR '' '' # s) = skip_ws s"
  by (simp add: skip_ws_def json_ws_def)

lemma skip_ws_Nil [simp]: "skip_ws [] = []"
  by (simp add: skip_ws_def)

lemma skip_ws_tokens [simp]:
  "skip_ws (CHR 0x22 # s) = CHR 0x22 # s"
  "skip_ws (CHR '':'' # s) = CHR '':'' # s"
  "skip_ws (CHR '','' # s) = CHR '','' # s"
  "skip_ws (CHR ''{'' # s) = CHR ''{'' # s"
  "skip_ws (CHR ''}'' # s) = CHR ''}'' # s"
  "skip_ws (CHR ''n'' # s) = CHR ''n'' # s"
  by (simp_all add: skip_ws_def json_ws_def)

lemma json_value_item:
  "(case v of None \<Rightarrow> True | Some x \<Rightarrow> plain x) \<Longrightarrow>
   json_value ((case v of None \<Rightarrow> ''null'' | Some x \<Rightarrow> json_quote x) @ r) = Some (v, r) \<and>
   skip_ws ((case v of None \<Rightarrow> ''null'' | Some x \<Rightarrow> json_quote x) @ r) =
     (case v of None \<Rightarrow> ''null'' | Some x \<Rightarrow> json_quote x) @ r"
  by (cases v) (simp_all add: json_value_def json_quote_def json_string_body_plain)

lemma json_members_space: "json_members (CHR '' '' # s) = json_members s"
  by (simp add: json_members.simps [of "CHR '' '' # s"] json_members.simps [of s])

lemma json_members_last:
  assumes "plain_item kv"
  shows "json_members (json_item kv @ ''}'') = Some [kv]"
proof -
  obtain k v where kv: "kv = (Some k, v)" and k: "plain k"
    and v: "case v of None \<Rightarrow> True | Some x \<Rightarrow> plain x"
    using assms by (cases kv) (auto simp: plain_item_def split: option.splits)
  show ?thesis
    unfolding kv
    by (subst json_members.simps)
      (simp add: json_item_def json_quote_def json_string_body_plain [OF k]
        json_value_item [OF v])
qed

lemma json_members_more:
  assumes "plain_item kv"
  shows "json_members (json_item kv @ '', '' @ rest) = map_option (\<lambda>ms. kv # ms) (json_members rest)"
proof -
  obtain k v where kv: "kv = (Some k, v)" and k: "plain k"
    and v: "case v of None \<Rightarrow> True | Some x \<Rightarrow> plain x"
    using assms by (cases kv) (auto simp: plain_item_def split: option.splits)
  show ?thesis
    unfolding kv
    by (subst json_members.simps)
      (simp add: json_item_def json_quote_def json_string_body_plain [OF k]
        json_value_item [OF v] json_members_space)
qed

lemma json_members_dumps:
  "d \<noteq> [] \<Longrightarrow> list_all plain_item d \<Longrightarrow>
   json_members (join '', '' (map json_item d) @ ''}'') = Some d"
proof (induction d)
  case Nil
  then show ?case by simp
next
  case (Cons kv d)
  show ?case
  proof (cases d)
    case Nil
    then show ?thesis using Cons.prems json_members_last [of kv] by simp
  next
    case (Cons kv' d')
    then show ?thesis
      using Cons.prems Cons.IH json_members_more [of kv] by simp
  qed
qed

lemma json_item_starts_quote: "\<exists>r. json_item kv = CHR 0x22 # r"
  by (simp add: json_item_def json_quote_def)

lemma json_loads_dumps:
  assumes "list_all plain_item d" and "distinct (map fst d)"
  shows "json_loads (json_dumps d) = Some d"
proof (cases d)
  case Nil
  then show ?thesis by (simp add: json_loads_def json_dumps_def)
next
  case (Cons kv d')
  obtain r where r: "json_item kv = CHR 0x22 # r"
    using json_item_starts_quote by blast
  have start: "\<exists>r'. join '', '' (map json_item d) @ ''}'' = CHR 0x22 # r'"
    using Cons r by (cases d') simp_all
  have "dict_of d = d"
    using assms(2)
  proof -
    have "distinct (map fst (d0 @ ps)) \<Longrightarrow> fold (\<lambda>(k, v) d. AList.update k v d) ps d0 = d0 @ ps" for ps d0 :: "(string option \<times> string option) list"
    proof (induction ps arbitrary: d0)
      case Nil
      then show ?case by simp
    next
      case (Cons p ps)
      obtain k v where p: "p = (k, v)" by (cases p)
      have "k \<notin> fst ` set d0" using Cons.prems p by auto
      then have "AList.update k v d0 = d0 @ [(k, v)]"
        by (induction d0) auto
      then show ?case using Cons.IH [of "d0 @ [p]"] Cons.prems p by simp
    qed
    from this [of "[]" d] assms(2) show ?thesis by (simp add: dict_of_def)
  qed
  moreover have "json_members (join '', '' (map json_item d) @ ''}'') = Some d"
    using json_members_dumps [of d] assms(1) Cons by simp
  ultimately show ?thesis
    using start by (auto simp: json_loads_def json_dumps_def)
qed


lemma digit_char_plain: "n < 10 \<Longrightarrow> json_plain (digit_char n)"
proof -
  assume n: "n < 10"
  have "list_all json_plain ''0123456789''"
    by (simp add: json_plain_def)
  then have "\<forall>i < length ''0123456789''. json_plain (''0123456789'' ! i)"
    by (simp only: list_all_length)
  with n show ?thesis
    by (simp add: digit_char_def)
qed

lemma str_nat_plain: "plain (str_nat n)"
proof (induction n rule: str_nat.induct)
  case (1 n)
  show ?case
  proof (cases "n < 10")
    case True
    then show ?thesis
      by (subst str_nat.simps) (simp add: plain_def digit_char_plain)
  next
    case False
    then have "plain (str_nat (n div 10))" using 1 by simp
    moreover have "json_plain (digit_char (n mod 10))"
      by (rule digit_char_plain) simp
    ultimately show ?thesis
      using False by (subst str_nat.simps) (simp add: plain_def)
  qed
qed

lemma str_int_plain: "plain (str_int i)"
  using str_nat_plain [of "nat (- i)"] str_nat_plain [of "nat i"]
  by (simp add: str_int_def plain_def json_plain_def)

lemma str_nat_nonempty: "str_nat n \<noteq> []"
  by (subst str_nat.simps) simp

lemma str_int_nonempty: "str_int i \<noteq> []"
  by (simp add: str_int_def str_nat_nonempty)

lemma plain_hello: "plain ''hello''" "plain ''hello world''"
  by (simp_all add: plain_def json_plain_def)

text \<open>
  Claim C9. In a room where message \<open>mid\<close> has not been corrected before, recording it
  with body \<open>hello\<close> at time \<open>t0\<close> and then applying a correction with the new body
  \<open>hello world\<close> at time \<open>t1\<close> succeeds, and fetching the entry returns the body
  \<open>hello world\<close>, the edit timestamp \<open>t1\<close> and an edit history whose JSON text decodes
  to exactly one entry, from the original timestamp \<open>t0\<close> to \<open>hello\<close>. A further
  correction adds the previous body under the previous edit timestamp \<open>t1\<close>.
\<close>

theorem correction_round_trip:
  assumes "sql_get db ''bot_chat_history'' (entry_key muc mid) ''edit_timestamp'' = None"
    and "sql_get db ''bot_chat_history'' (entry_key muc mid) ''edit_history'' = None"
  shows "\<exists>db2 entry eh.
           store_correction_history
             (store_chat_history gj db muc nick mid sid ''hello'' t0)
             muc nick' mid' mid sid' ''hello world'' t1 = Inr db2 \<and>
           get_history_message db2 muc mid = Some entry \<and>
           map_of entry ''body'' = Some (Some ''hello world'') \<and>
           map_of entry ''timestamp'' = Some (Some (str_int t0)) \<and>
           map_of entry ''edit_timestamp'' = Some (Some (str_int t1)) \<and>
           map_of entry ''edit_history'' = Some (Some eh) \<and>
           eh = json_dumps [(Some (str_int t0), Some ''hello'')] \<and>
           json_loads eh = Some [(Some (str_int t0), Some ''hello'')] \<and>
           (\<exists>db3 eh3.
              store_correction_history db2 muc nick'' mid'' mid sid'' body3 t2 = Inr db3 \<and>
              sql_get db3 ''bot_chat_history'' (entry_key muc mid) ''edit_history'' = Some eh3 \<and>
              json_loads eh3 =
                Some (AList.update (Some (str_int t1)) (Some ''hello world'')
                        [(Some (str_int t0), Some ''hello'')]))"
proof -
  let ?T = "''bot_chat_history''"
  let ?key = "entry_key muc mid"
  let ?db1 = "store_chat_history gj db muc nick mid sid ''hello'' t0"
  let ?h1 = "[(Some (str_int t0), Some ''hello'')]"
  let ?eh = "json_dumps ?h1"
  let ?db2 = "sql_set (sql_set (sql_set ?db1 ?T ?key ''body'' (PStr ''hello world''))
                 ?T ?key ''edit_timestamp'' (PInt t1)) ?T ?key ''edit_history'' (PStr ?eh)"
  let ?h2 = "AList.update (Some (str_int t1)) (Some ''hello world'') ?h1"
  have g1: "sql_get ?db1 ?T ?key ''body'' = Some ''hello''"
    "sql_get ?db1 ?T ?key ''timestamp'' = Some (str_int t0)"
    "sql_get ?db1 ?T ?key ''edit_timestamp'' = None"
    "sql_get ?db1 ?T ?key ''edit_history'' = None"
    using assms by (simp_all add: store_chat_history_def Let_def split: option.splits)
  have empty: "json_loads ''{}'' = Some []"
    by (simp add: json_loads_def)
  have c1: "store_correction_history ?db1 muc nick' mid' mid sid' ''hello world'' t1 = Inr ?db2"
    by (simp add: store_correction_history_def Let_def g1 truthy_opt_def empty)
  have g2: "sql_get ?db2 ?T ?key ''body'' = Some ''hello world''"
    "sql_get ?db2 ?T ?key ''timestamp'' = Some (str_int t0)"
    "sql_get ?db2 ?T ?key ''edit_timestamp'' = Some (str_int t1)"
    "sql_get ?db2 ?T ?key ''edit_history'' = Some ?eh"
    by (simp_all add: g1)
  obtain entry where e: "get_history_message ?db2 muc mid = Some entry"
    and look: "\<And>f. map_of entry f = map_option Some (sql_get ?db2 ?T ?key f)"
    using get_history_message_lookup [of ?db2 muc "mid"] g2(2) by auto
  have p1: "list_all plain_item ?h1"
    by (simp add: plain_item_def str_int_plain plain_hello)
  have l1: "json_loads ?eh = Some ?h1"
    by (rule json_loads_dumps [OF p1]) simp
  have p2: "list_all plain_item ?h2"
    by (simp add: plain_item_def str_int_plain plain_hello)
  have l2: "json_loads (json_dumps ?h2) = Some ?h2"
    by (rule json_loads_dumps [OF p2]) (simp add: distinct_update)
  have ne: "?eh \<noteq> []"
    by (simp add: json_dumps_def)
  let ?db3 = "sql_set (sql_set (sql_set ?db2 ?T ?key ''body'' (PStr body3))
                 ?T ?key ''edit_timestamp'' (PInt t2)) ?T ?key ''edit_history'' (PStr (json_dumps ?h2))"
  have c2: "store_correction_history ?db2 muc nick'' mid'' mid sid'' body3 t2 = Inr ?db3"
    unfolding store_correction_history_def Let_def g2
    by (simp add: truthy_opt_def str_int_nonempty l1 ne)
  have g3: "sql_get ?db3 ?T ?key ''edit_history'' = Some (json_dumps ?h2)"
    by simp
  show ?thesis
    using c1 e look [of "''body''"] look [of "''timestamp''"] look [of "''edit_timestamp''"]
      look [of "''edit_history''"] g2 l1 c2 g3 l2
    by (intro exI [of _ ?db2] exI [of _ entry] exI [of _ ?eh] conjI exI [of _ ?db3]
        exI [of _ "json_dumps ?h2"]) simp_all
qed


theorem correction_round_trip_witness:
  "\<exists>db2 entry eh.
     store_correction_history
       (store_chat_history (\<lambda>_ _. None) (\<lambda>_. []) ''room@muc'' ''alice'' ''m1'' (PStr ''s1'') ''hello'' 100)
       ''room@muc'' ''alice'' ''m2'' ''m1'' (PStr ''s2'') ''hello world'' 200 = Inr db2 \<and>
     get_history_message db2 ''room@muc'' ''m1'' = Some entry \<and>
     map_of entry ''body'' = Some (Some ''hello world'') \<and>
     map_of entry ''timestamp'' = Some (Some (str_int 100)) \<and>
     map_of entry ''edit_timestamp'' = Some (Some (str_int 200)) \<and>
     map_of entry ''edit_history'' = Some (Some eh) \<and>
     eh = json_dumps [(Some (str_int 100), Some ''hello'')] \<and>
     json_loads eh = Some [(Some (str_int 100), Some ''hello'')] \<and>
     (\<exists>db3 eh3.
        store_correction_history db2 ''room@muc'' ''alice'' ''m3'' ''m1'' (PStr ''s3'') ''bye'' 300 = Inr db3 \<and>
        sql_get db3 ''bot_chat_history'' (entry_key ''room@muc'' ''m1'') ''edit_history'' = Some eh3 \<and>
        json_loads eh3 =
          Some (AList.update (Some (str_int 200)) (Some ''hello world'')
                  [(Some (str_int 100), Some ''hello'')]))"
  using correction_round_trip [where db = "\<lambda>_. []" and gj = "\<lambda>_ _. None" and muc = "''room@muc''"
      and mid = "''m1''" and nick = "''alice''" and sid = "PStr ''s1''" and ?t0.0 = 100
      and nick' = "''alice''" and mid' = "''m2''" and sid' = "PStr ''s2''" and ?t1.0 = 200
      and nick'' = "''alice''" and mid'' = "''m3''" and sid'' = "PStr ''s3''" and ?body3.0 = "''bye''"
      and ?t2.0 = 300]
  by (simp add: sql_get_def)

text \<open>
  What the ledger does keep. Two recordings of the same \<open>(room, message id)\<close> leave
  exactly one stored row for each field that a recording writes, and a room-join
  backfill message that carries no replace id and whose entry already has a timestamp
  writes nothing: the unseen-check of \<open>_process_chat_history\<close> guards the call of
  \<open>_store_chat_history\<close>. (A backfill message with a replace id still has its
  correction applied again.)
\<close>

lemma backfill_replay_without_replace_id:
  "let db1 = store_chat_history gj db muc nick mid sid body now;
       db2 = store_chat_history gj' db1 muc nick' mid sid' body' now';
       replayed = \<lparr>h_from = sender, h_body = body', h_id = mid, h_replace_id = None,
                    h_stanza_id = sid', h_now = now'\<rparr>
   in length (entry_rows db2 (entry_key muc mid) ''nick'') = 1 \<and>
      length (entry_rows db2 (entry_key muc mid) ''stanza_id'') = 1 \<and>
      length (entry_rows db2 (entry_key muc mid) ''body'') = 1 \<and>
      length (entry_rows db2 (entry_key muc mid) ''timestamp'') = 1 \<and>
      process_chat_history gj' db1 muc [replayed] = (db1, None) \<and>
      entry_rows db1 (entry_key muc mid) ''nick'' = [(entry_key muc mid, ''nick'', nick)] \<and>
      entry_rows db1 (entry_key muc mid) ''stanza_id'' = [(entry_key muc mid, ''stanza_id'', py_str sid)] \<and>
      entry_rows db1 (entry_key muc mid) ''body'' = [(entry_key muc mid, ''body'', body)] \<and>
      entry_rows db1 (entry_key muc mid) ''timestamp'' = [(entry_key muc mid, ''timestamp'', str_int now)]"
proof -
  let ?db1 = "store_chat_history gj db muc nick mid sid body now"
  let ?db2 = "store_chat_history gj' ?db1 muc nick' mid sid' body' now'"
  let ?key = "entry_key muc mid"
  have ts: "sql_get ?db1 ''bot_chat_history'' ?key ''timestamp'' \<noteq> None"
    by (simp add: store_chat_history_def Let_def)
  have p: "process_chat_history gj' ?db1 muc
          [\<lparr>h_from = sender, h_body = body', h_id = mid, h_replace_id = None,
            h_stanza_id = sid', h_now = now'\<rparr>] = (?db1, None)"
    by (rule process_stored_no_replace) (simp_all add: ts)
  have r2: "length (entry_rows ?db2 ?key ''nick'') = 1"
    "length (entry_rows ?db2 ?key ''stanza_id'') = 1"
    "length (entry_rows ?db2 ?key ''body'') = 1"
    "length (entry_rows ?db2 ?key ''timestamp'') = 1"
    by (simp_all add: store_chat_history_def Let_def split: option.splits)
  have r1: "entry_rows ?db1 ?key ''nick'' = [(?key, ''nick'', nick)]"
    "entry_rows ?db1 ?key ''stanza_id'' = [(?key, ''stanza_id'', py_str sid)]"
    "entry_rows ?db1 ?key ''body'' = [(?key, ''body'', body)]"
    "entry_rows ?db1 ?key ''timestamp'' = [(?key, ''timestamp'', str_int now)]"
    by (simp_all add: store_chat_history_def Let_def split: option.splits)
  show ?thesis
    unfolding Let_def by (intro conjI; (rule p r1 r2))
qed

text \<open>
  Claim C2 does not hold of the code. \<open>_store_chat_history\<close>, which every live
  groupchat message reaches without a check, writes its fields whether or not the entry
  exists: the very same message recorded at time 100 and again at time 200 ends with
  the timestamp 200 in place of 100, and a second message with the same id replaces the
  body written first. Only the backfill asks whether the entry is there.
\<close>

theorem record_twice_overwrites_first_entry:
  "sql_get
     (store_chat_history (\<lambda>_ _. None)
        (store_chat_history (\<lambda>_ _. None) (\<lambda>_. []) ''room@muc'' ''alice'' ''m1'' (PStr ''s1'') ''hello'' 100)
        ''room@muc'' ''alice'' ''m1'' (PStr ''s1'') ''hello'' 200)
     ''bot_chat_history'' (entry_key ''room@muc'' ''m1'') ''timestamp'' = Some ''200'' \<and>
   sql_get
     (store_chat_history (\<lambda>_ _. None) (\<lambda>_. []) ''room@muc'' ''alice'' ''m1'' (PStr ''s1'') ''hello'' 100)
     ''bot_chat_history'' (entry_key ''room@muc'' ''m1'') ''timestamp'' = Some ''100'' \<and>
   sql_get
     (store_chat_history (\<lambda>_ _. None)
        (store_chat_history (\<lambda>_ _. None) (\<lambda>_. []) ''room@muc'' ''alice'' ''m1'' (PStr ''s1'') ''hello'' 100)
        ''room@muc'' ''bob'' ''m1'' (PStr ''s9'') ''bye'' 200)
     ''bot_chat_history'' (entry_key ''room@muc'' ''m1'') ''body'' = Some ''bye''"
proof -
  have "str_int 100 = ''100''" "str_int 200 = ''200''"
    by code_simp+
  then show ?thesis
    by (simp add: store_chat_history_def Let_def)
qed

section \<open>Properties of the user states\<close>

lemma call_handler_keeps [simp]:
  "sql (call_handler pl hm b) = sql b"
  "user_states (call_handler pl hm b) = user_states b"
  "warnings (call_handler pl hm b) = warnings b"
  "plugins (call_handler pl hm b) = plugins b"
  "mucs (call_handler pl hm b) = mucs b"
  by (simp_all add: call_handler_def Let_def split: outcome.splits)

lemma presence_loop_keeps [simp]:
  "sql (presence_loop hm dis pls b) = sql b"
  "user_states (presence_loop hm dis pls b) = user_states b"
  "warnings (presence_loop hm dis pls b) = warnings b"
  by (induction pls arbitrary: b) simp_all

lemma handle_presence_event_keeps [simp]:
  "sql (handle_presence_event ev dis b) = sql b"
  "user_states (handle_presence_event ev dis b) = user_states b"
  "warnings (handle_presence_event ev dis b) = warnings b"
  by (simp_all add: handle_presence_event_def split: option.splits)

lemma sql_get_delete_other_table [simp]:
  "t \<noteq> t' \<Longrightarrow> sql_get (sql_delete d t' k f) t k' f' = sql_get d t k' f'"
  by (simp add: sql_get_def sql_delete_def split: option.splits)

lemma save_user_state_first_seen:
  assumes "sql_get d ''bot_user_states'' k ''first_seen'' = Some v" and "v \<noteq> []"
  shows "sql_get (fst (save_user_state d muc user r a s fs)) ''bot_user_states'' k ''first_seen'' = Some v"
  using assms
  by (cases "k = entry_key muc user") (simp_all add: save_user_state_def Let_def truthy_opt_def)

lemma save_user_state_warns:
  assumes "sql_get d ''bot_user_states'' (entry_key muc user) ''first_seen'' = Some v" and "v \<noteq> []"
    and "truthy fs"
  shows "snd (save_user_state d muc user r a s fs) =
           [''Blocked attempt to overwrite first_seen for '' @ entry_key muc user]"
  using assms by (simp add: save_user_state_def Let_def truthy_opt_def)

lemma save_into_fields [simp]:
  "sql (save_into b r) = fst r"
  "user_states (save_into b r) = user_states b"
  "warnings (save_into b r) = warnings b @ snd r"
  by (simp_all add: save_into_def)

lemma handle_state_changes_first_seen:
  assumes "sql_get (sql b) ''bot_user_states'' k ''first_seen'' = Some v" and "v \<noteq> []"
  shows "sql_get (sql (fst (handle_state_changes muc user ust pres dis b))) ''bot_user_states'' k ''first_seen'' = Some v"
  using assms
  by (auto simp: handle_state_changes_def Let_def save_user_state_first_seen split: option.splits)

lemma rekey_user_first_seen:
  assumes "sql_get (sql b) ''bot_user_states'' k ''first_seen'' = Some v" and "v \<noteq> []"
  shows "sql_get (sql (rekey_user muc user newnick pres us b)) ''bot_user_states'' k ''first_seen'' = Some v"
  using assms
  by (auto simp: rekey_user_def Let_def save_user_state_first_seen split: option.splits)

lemma new_user_first_seen:
  assumes "sql_get (sql b) ''bot_user_states'' k ''first_seen'' = Some v" and "v \<noteq> []"
  shows "sql_get (sql (new_user muc user pres now dis us b)) ''bot_user_states'' k ''first_seen'' = Some v"
  using assms
  by (auto simp: new_user_def Let_def save_user_state_first_seen)



lemma observe_user_first_seen:
  assumes "sql_get (sql b) ''bot_user_states'' k ''first_seen'' = Some v" and "v \<noteq> []"
  shows "sql_get (sql (fst (observe_user muc user ust pres now dis b))) ''bot_user_states'' k ''first_seen'' = Some v"
  using assms
  by (simp add: observe_user_def new_user_first_seen handle_state_changes_first_seen
      split: option.splits mirror_val.splits)

lemma track_user_first_seen:
  assumes "sql_get (sql b) ''bot_user_states'' k ''first_seen'' = Some v" and "v \<noteq> []"
  shows "sql_get (sql (fst (track_user muc nick pres now b))) ''bot_user_states'' k ''first_seen'' = Some v"
proof -
  define b1 where "b1 = (if user_states b muc = None
                then b\<lparr>user_states := (user_states b)(muc \<mapsto> Users Map.empty)\<rparr> else b)"
  have s1: "sql_get (sql b1) ''bot_user_states'' k ''first_seen'' = Some v"
    using assms by (simp add: b1_def)
  have r: "sql_get (sql (fst (observe_user muc u ust pres now dis (rekey_user muc u' n pres us b1))))
             ''bot_user_states'' k ''first_seen'' = Some v" for u u' n ust dis us
    by (rule observe_user_first_seen [OF rekey_user_first_seen [OF s1 assms(2)] assms(2)])
  have o: "sql_get (sql (fst (observe_user muc u ust pres now dis b1)))
             ''bot_user_states'' k ''first_seen'' = Some v" for u ust dis
    by (rule observe_user_first_seen [OF s1 assms(2)])
  show ?thesis
    unfolding track_user_def Let_def b1_def [symmetric]
    by (simp add: s1 r o split: option.splits mirror_val.splits)
qed

lemma presence_body_first_seen:
  assumes "sql_get (sql b) ''bot_user_states'' k ''first_seen'' = Some v" and "v \<noteq> []"
    and "p_muc_jid pres \<noteq> Some (boundjid_bare b)"
  shows "sql_get (sql (fst (presence_body join_muc pres now b))) ''bot_user_states'' k ''first_seen'' = Some v"
  using assms
  by (simp add: presence_body_def track_user_first_seen split: list.splits)

lemma handle_groupchat_presence_first_seen:
  assumes "sql_get (sql b) ''bot_user_states'' k ''first_seen'' = Some v" and "v \<noteq> []"
    and "p_muc_jid pres \<noteq> Some (boundjid_bare b)"
  shows "sql_get (sql (handle_groupchat_presence join_muc pres now b)) ''bot_user_states'' k ''first_seen'' = Some v"
proof -
  obtain b' e where r: "presence_body join_muc pres now b = (b', e)"
    by (cases "presence_body join_muc pres now b")
  have "sql_get (sql b') ''bot_user_states'' k ''first_seen'' = Some v"
    using presence_body_first_seen [OF assms, of join_muc now] r by simp
  then show ?thesis
    by (simp add: handle_groupchat_presence_def r split: option.splits)
qed


lemma handle_state_changes_mirror:
  assumes "room \<noteq> ''role''" "room \<noteq> ''affiliation''" "room \<noteq> ''status''"
  shows "user_states (fst (handle_state_changes muc user ust pres dis b)) room = user_states b room"
  using assms
  by (simp add: handle_state_changes_def Let_def split: option.splits)

lemma rename_mirror:
  assumes "split_on (CHR ''/'') (p_from pres) = muc # nick # rest"
    and "p_muc_jid pres = None"
    and "p_muc_nick pres \<noteq> nick" and "p_muc_nick pres \<noteq> []"
    and "user_states b muc = Some (Users us)" and "us nick = Some st"
    and "muc \<noteq> ''role''" "muc \<noteq> ''affiliation''" "muc \<noteq> ''status''"
  shows "user_states (handle_groupchat_presence join_muc pres now b) muc =
           Some (Users ((us(nick := None))(p_muc_nick pres \<mapsto> st)))"
proof -
  let ?b2 = "rekey_user muc nick (p_muc_nick pres) pres us b"
  have m2: "user_states ?b2 muc = Some (Users ((us(nick := None))(p_muc_nick pres \<mapsto> st)))"
    using assms(6) by (simp add: rekey_user_def Let_def)
  have o: "user_states (fst (observe_user muc (p_muc_nick pres) (us nick) pres now dis ?b2)) muc =
             Some (Users ((us(nick := None))(p_muc_nick pres \<mapsto> st)))" for dis
    using assms(7-9) by (simp add: observe_user_def m2 handle_state_changes_mirror)
  have t: "track_user muc nick pres now b =
             observe_user muc (p_muc_nick pres) (us nick) pres now
               (case lists (muc_cfg b muc) ''disabled_plugins'' of None \<Rightarrow> [] | Some l \<Rightarrow> l) ?b2"
    using assms(2-5) by (simp add: track_user_def Let_def truthy_opt_def)
  have "user_states (fst (presence_body join_muc pres now b)) muc =
          Some (Users ((us(nick := None))(p_muc_nick pres \<mapsto> st)))"
    using assms(1,2) by (simp add: presence_body_def t o)
  then show ?thesis
    by (cases "presence_body join_muc pres now b")
      (auto simp: handle_groupchat_presence_def split: option.splits)
qed


text \<open>
  What the code does keep of \<open>first_seen\<close>. Let the store hold a (non-empty)
  \<open>first_seen\<close> value \<open>v\<close> for room \<open>muc\<close> and user \<open>user\<close>. Then \<open>_save_user_state\<close>
  with any arguments leaves that value as it is, and when it is given a \<open>first_seen\<close>
  to set it logs the warning and returns; no presence event of another occupant changes
  the stored value either. On a nickname change the state dictionary of the mirror moves
  from the old nickname to the new one.
\<close>

lemma first_seen_kept_under_its_key:
  assumes "sql_get (sql b) ''bot_user_states'' (entry_key muc user) ''first_seen'' = Some v"
    and "v \<noteq> []"
  shows
    "sql_get (fst (save_user_state (sql b) muc user r a s fs))
       ''bot_user_states'' (entry_key muc user) ''first_seen'' = Some v \<and>
     (truthy fs \<longrightarrow>
        snd (save_user_state (sql b) muc user r a s fs) =
          [''Blocked attempt to overwrite first_seen for '' @ entry_key muc user]) \<and>
     (p_muc_jid pres \<noteq> Some (boundjid_bare b) \<longrightarrow>
        sql_get (sql (handle_groupchat_presence join_muc pres now b))
          ''bot_user_states'' (entry_key muc user) ''first_seen'' = Some v) \<and>
     (split_on (CHR ''/'') (p_from pres) = muc # user # rest \<and> p_muc_jid pres = None \<and>
      p_muc_nick pres \<noteq> user \<and> p_muc_nick pres \<noteq> [] \<and>
      user_states b muc = Some (Users us) \<and> us user = Some st \<and>
      muc \<noteq> ''role'' \<and> muc \<noteq> ''affiliation'' \<and> muc \<noteq> ''status'' \<longrightarrow>
        user_states (handle_groupchat_presence join_muc pres now b) muc =
          Some (Users ((us(user := None))(p_muc_nick pres \<mapsto> st))))"
proof (intro conjI impI)
  show "sql_get (fst (save_user_state (sql b) muc user r a s fs))
       ''bot_user_states'' (entry_key muc user) ''first_seen'' = Some v"
    by (rule save_user_state_first_seen [OF assms])
next
  assume "truthy fs"
  then show "snd (save_user_state (sql b) muc user r a s fs) =
          [''Blocked attempt to overwrite first_seen for '' @ entry_key muc user]"
    by (rule save_user_state_warns [OF assms])
next
  assume "p_muc_jid pres \<noteq> Some (boundjid_bare b)"
  then show "sql_get (sql (handle_groupchat_presence join_muc pres now b))
          ''bot_user_states'' (entry_key muc user) ''first_seen'' = Some v"
    by (rule handle_groupchat_presence_first_seen [OF assms])
next
  assume "split_on (CHR ''/'') (p_from pres) = muc # user # rest \<and> p_muc_jid pres = None \<and>
      p_muc_nick pres \<noteq> user \<and> p_muc_nick pres \<noteq> [] \<and>
      user_states b muc = Some (Users us) \<and> us user = Some st \<and>
      muc \<noteq> ''role'' \<and> muc \<noteq> ''affiliation'' \<and> muc \<noteq> ''status''"
  then show "user_states (handle_groupchat_presence join_muc pres now b) muc =
          Some (Users ((us(user := None))(p_muc_nick pres \<mapsto> st)))"
    using rename_mirror [of pres muc user rest b us st join_muc now] by simp
qed

text \<open>A room with one known occupant, her nickname change, and the bot after it.\<close>

definition alice_state :: user_state where
  "alice_state = \<lparr>role = ''participant'', affiliation = ''member'', status = ''available'',
                   first_seen = PStr ''100''\<rparr>"

definition bot_before_rename :: bot where
  "bot_before_rename =
     \<lparr>user_states = [''room@muc'' \<mapsto> Users [''alice'' \<mapsto> alice_state]],
      sql = (\<lambda>_. [])(''bot_user_states'' :=
               [(''room@muc_alice'', ''role'', ''participant''),
                (''room@muc_alice'', ''affiliation'', ''member''),
                (''room@muc_alice'', ''status'', ''available''),
                (''room@muc_alice'', ''first_seen'', ''100'')]),
      joined_mucs = [''room@muc''], mucs = Map.empty, plugins = [],
      boundjid_bare = ''bot@example.org'', bot_nick = ''Nokotan'', calls = [], errors = [],
      warnings = []\<rparr>"

definition rename_presence :: presence where
  "rename_presence = \<lparr>p_from = ''room@muc/alice'', p_muc_nick = ''alicia'', p_muc_jid = None,
                       p_role = ''participant'', p_affiliation = ''member'', p_type = ''available''\<rparr>"

definition bot_after_rename :: bot where
  "bot_after_rename =
     bot_before_rename
       \<lparr>user_states := [''room@muc'' \<mapsto> Users [''alicia'' \<mapsto> alice_state]],
        sql := (\<lambda>_. [])(''bot_user_states'' :=
               [(''room@muc_alice'', ''first_seen'', ''100''),
                (''room@muc_alice'', ''role'', ''participant''),
                (''room@muc_alice'', ''affiliation'', ''member''),
                (''room@muc_alice'', ''status'', ''available'')],
              ''user_states'' := [])\<rparr>"

lemma rekey_example:
  "rekey_user ''room@muc'' ''alice'' ''alicia'' rename_presence [''alice'' \<mapsto> alice_state] bot_before_rename
     = bot_after_rename"
proof -
  have m: "[''alice'' \<mapsto> alice_state](''alice'' := None, ''alicia'' \<mapsto> alice_state) = [''alicia'' \<mapsto> alice_state]"
    by (simp add: fun_eq_iff)
  have u: "(user_states bot_before_rename)(''room@muc'' \<mapsto> Users [''alicia'' \<mapsto> alice_state]) =
           [''room@muc'' \<mapsto> Users [''alicia'' \<mapsto> alice_state]]"
    by (simp add: bot_before_rename_def fun_eq_iff)
  have d: "fst (save_user_state (sql_delete (sql bot_before_rename) ''user_states'' ''alice'' None)
             ''room@muc'' ''alice'' (PStr ''participant'') (PStr ''member'') (PStr ''available'') PNone) =
           (\<lambda>_. [])(''bot_user_states'' :=
               [(''room@muc_alice'', ''first_seen'', ''100''),
                (''room@muc_alice'', ''role'', ''participant''),
                (''room@muc_alice'', ''affiliation'', ''member''),
                (''room@muc_alice'', ''status'', ''available'')],
              ''user_states'' := [])"
    by (simp add: save_user_state_def Let_def sql_delete_def sql_set_def entry_key_def row_is_def
        bot_before_rename_def fun_eq_iff)
  have w: "snd (save_user_state db ''room@muc'' ''alice'' (PStr ''participant'') (PStr ''member'') (PStr ''available'') PNone) = []" for db
    by (simp add: save_user_state_def Let_def)
  show ?thesis
    unfolding rekey_user_def
    by (simp add: Let_def m u save_into_def d w rename_presence_def bot_after_rename_def)
qed


lemma before_fields:
  "user_states bot_before_rename ''room@muc'' = Some (Users [''alice'' \<mapsto> alice_state])"
  "boundjid_bare bot_before_rename = ''bot@example.org''"
  "muc_cfg bot_before_rename ''room@muc'' = no_config"
  by (simp_all add: bot_before_rename_def muc_cfg_def)

lemma after_fields:
  "user_states bot_after_rename ''room@muc'' = Some (Users [''alicia'' \<mapsto> alice_state])"
  "errors bot_after_rename = []"
  "sql bot_after_rename ''bot_user_states'' =
     [(''room@muc_alice'', ''first_seen'', ''100''),
      (''room@muc_alice'', ''role'', ''participant''),
      (''room@muc_alice'', ''affiliation'', ''member''),
      (''room@muc_alice'', ''status'', ''available'')]"
  by (simp_all add: bot_after_rename_def bot_before_rename_def)

lemma observe_example:
  "observe_user ''room@muc'' ''alicia'' (Some alice_state) rename_presence 500 [] bot_after_rename
     = (bot_after_rename, None)"
  by (simp add: observe_user_def after_fields handle_state_changes_def Let_def rename_presence_def
      alice_state_def)

lemma track_example:
  "track_user ''room@muc'' ''alice'' rename_presence 500 bot_before_rename = (bot_after_rename, None)"
proof -
  have p: "p_muc_nick rename_presence = ''alicia''" "p_muc_jid rename_presence = None"
    by (simp_all add: rename_presence_def)
  show ?thesis
    unfolding track_user_def Let_def p
    by (simp add: before_fields truthy_opt_def no_config_def rekey_example observe_example)
qed

text \<open>
  Claim C8 does not hold of the code on a nickname change. \<open>alice\<close>, whose stored state
  has \<open>first_seen\<close> 100, changes her nickname to \<open>alicia\<close>. The presence is processed
  without error and the mirror moves her state to the new nickname, but in the store
  nothing is re-keyed: \<open>sql.delete\<close> is given the table \<open>user_states\<close> and the bare
  nickname as key, and \<open>_save_user_state\<close> is called with the old nickname. The store
  ends with every row still under the key of \<open>alice\<close> and no row, hence no
  \<open>first_seen\<close>, under the key of \<open>alicia\<close>.
\<close>

theorem nick_change_leaves_first_seen_behind:
  "handle_groupchat_presence (\<lambda>_ b. b) rename_presence 500 bot_before_rename = bot_after_rename \<and>
   user_states bot_after_rename ''room@muc'' = Some (Users [''alicia'' \<mapsto> alice_state]) \<and>
   first_seen alice_state = PStr ''100'' \<and>
   sql_get (sql bot_before_rename) ''bot_user_states'' (entry_key ''room@muc'' ''alice'') ''first_seen'' = Some ''100'' \<and>
   sql_get (sql bot_after_rename) ''bot_user_states'' (entry_key ''room@muc'' ''alice'') ''first_seen'' = Some ''100'' \<and>
   sql_get (sql bot_after_rename) ''bot_user_states'' (entry_key ''room@muc'' ''alicia'') ''first_seen'' = None \<and>
   filter (\<lambda>r. fst r = entry_key ''room@muc'' ''alicia'') (sql bot_after_rename ''bot_user_states'') = []"
proof -
  have f: "split_on (CHR ''/'') (p_from rename_presence) = [''room@muc'', ''alice'']"
    by (simp add: rename_presence_def)
  have j: "p_muc_jid rename_presence = None"
    by (simp add: rename_presence_def)
  have h: "handle_groupchat_presence (\<lambda>_ b. b) rename_presence 500 bot_before_rename = bot_after_rename"
    by (simp add: handle_groupchat_presence_def presence_body_def f j track_example)
  have g: "sql_get (sql bot_before_rename) ''bot_user_states'' (entry_key ''room@muc'' ''alice'') ''first_seen'' = Some ''100''"
    by (simp add: sql_get_def bot_before_rename_def entry_key_def row_is_def)
  have a: "sql_get (sql bot_after_rename) ''bot_user_states'' (entry_key ''room@muc'' ''alice'') ''first_seen'' = Some ''100''"
    "sql_get (sql bot_after_rename) ''bot_user_states'' (entry_key ''room@muc'' ''alicia'') ''first_seen'' = None"
    "filter (\<lambda>r. fst r = entry_key ''room@muc'' ''alicia'') (sql bot_after_rename ''bot_user_states'') = []"
    by (simp_all add: sql_get_def after_fields entry_key_def row_is_def)
  have s: "first_seen alice_state = PStr ''100''"
    by (simp add: alice_state_def)
  show ?thesis
    using h g a s after_fields(1) by blast
qed


text \<open>
  Claim C3 does not hold of the code. A presence of \<open>alice\<close> with the new role
  \<open>moderator\<close> is processed without error and the new role is saved to the store, but
  the mirror entry of \<open>alice\<close> in the room keeps the role \<open>participant\<close>: the new value is
  assigned to the top-level key \<open>"role"\<close> of the mirror instead.
\<close>

theorem role_change_leaves_mirror_stale:
  "(let st = \<lparr>role = ''participant'', affiliation = ''member'', status = ''available'', first_seen = PStr ''100''\<rparr>;
        d = (\<lambda>_. [])(''bot_user_states'' :=
               [(''room@muc_alice'', ''role'', ''participant''),
                (''room@muc_alice'', ''affiliation'', ''member''),
                (''room@muc_alice'', ''status'', ''available''),
                (''room@muc_alice'', ''first_seen'', ''100'')]);
        b = \<lparr>user_states = [''room@muc'' \<mapsto> Users [''alice'' \<mapsto> st]], sql = d, joined_mucs = [''room@muc''],
             mucs = Map.empty, plugins = [], boundjid_bare = ''bot@example.org'', bot_nick = ''Nokotan'',
             calls = [], errors = [], warnings = []\<rparr>;
        pres = \<lparr>p_from = ''room@muc/alice'', p_muc_nick = ''alice'', p_muc_jid = None,
                p_role = ''moderator'', p_affiliation = ''member'', p_type = ''available''\<rparr>;
        b' = handle_groupchat_presence (\<lambda>_ x. x) pres 500 b
    in sql_get (sql b') ''bot_user_states'' (entry_key ''room@muc'' ''alice'') ''role'' = Some ''moderator'' \<and>
       user_states b' ''room@muc'' = Some (Users [''alice'' \<mapsto> st]) \<and>
       user_states b' ''role'' = Some (Scalar ''moderator'') \<and>
       errors b' = [])"
  by (simp add: Let_def handle_groupchat_presence_def presence_body_def track_user_def
      observe_user_def handle_state_changes_def handle_presence_event_def event_handler_map_def
      save_into_def save_user_state_def truthy_opt_def muc_cfg_def no_config_def entry_key_def)


section \<open>Properties of the plugin fan-out\<close>

text \<open>
  Claim C4 does not hold of the code. In a room whose configuration lists
  \<open>chat_plugin\<close> under \<open>disabled_plugins\<close>, a groupchat message is still handed to
  the plugin's \<open>handle_groupchat_message\<close> (the fan-out looks the list up under the key
  \<open>"disabled=_plugins"\<close>), and a room join is still handed to its \<open>handle_room_join\<close>
  (the presence fan-out tests the plugin instance, not its name, against the list).
\<close>

theorem disabled_plugin_still_called:
  "(let chat = \<lparr>module = ''plugins.chat_plugin'',
                 has_attr = (\<lambda>m. m = ''handle_groupchat_message'' \<or> m = ''handle_room_join''),
                 run_handler = (\<lambda>_. Returned)\<rparr>;
        cfg = \<lparr>lists = [''disabled_plugins'' \<mapsto> [''chat_plugin'']], strs = Map.empty, flags = Map.empty\<rparr>;
        b = \<lparr>user_states = Map.empty, sql = (\<lambda>_. []), joined_mucs = [''room@muc''],
             mucs = [''room@muc'' \<mapsto> cfg], plugins = [chat], boundjid_bare = ''bot@example.org'',
             bot_nick = ''Nokotan'', calls = [], errors = [], warnings = []\<rparr>;
        pres = \<lparr>p_from = ''room@muc/alice'', p_muc_nick = ''alice'', p_muc_jid = None,
                p_role = ''participant'', p_affiliation = ''member'', p_type = ''available''\<rparr>
    in lists (muc_cfg b ''room@muc'') ''disabled_plugins'' = Some [''chat_plugin''] \<and>
       calls (send_message_to_plugins ''room@muc'' ''groupchat_message'' b) =
         [(''plugins.chat_plugin'', ''handle_groupchat_message'')] \<and>
       calls (handle_groupchat_presence (\<lambda>_ x. x) pres 500 b) =
         [(''plugins.chat_plugin'', ''handle_room_join'')])"
  by (simp add: Let_def send_message_to_plugins_def get_disabled_plugins_for_muc_def
      get_whitelist_plugins_for_muc_def muc_cfg_def call_handler_def
      handle_groupchat_presence_def presence_body_def track_user_def observe_user_def new_user_def
      handle_presence_event_def event_handler_map_def instance_in_def
      save_into_def save_user_state_def truthy_opt_def)

text \<open>
  Claim C10. For every reaction event \<open>handle_reactions\<close> returns the bot as it was:
  no handler of any plugin is called.
\<close>

theorem reactions_never_reach_plugins:
  "handle_reactions muc b = b \<and> calls (handle_reactions muc b) = calls b"
  by (simp add: handle_reactions_def truthy_method_def)


text \<open>The fan-out that \<open>handle_reactions\<close> never reaches would call the handler.\<close>

lemma reaction_fanout_calls_handler:
  "calls (send_message_to_plugins ''room@muc'' ''reaction''
     \<lparr>user_states = Map.empty, sql = (\<lambda>_. []), joined_mucs = [''room@muc''], mucs = Map.empty,
      plugins = [\<lparr>module = ''plugins.chat_plugin'', has_attr = (\<lambda>_. True),
                  run_handler = (\<lambda>_. Returned)\<rparr>],
      boundjid_bare = ''bot@example.org'', bot_nick = ''Nokotan'', calls = [], errors = [],
      warnings = []\<rparr>) = [(''plugins.chat_plugin'', ''handle_reaction'')]"
  by (simp add: send_message_to_plugins_def get_disabled_plugins_for_muc_def
      get_whitelist_plugins_for_muc_def muc_cfg_def no_config_def call_handler_def)

section \<open>Properties of the command dispatcher\<close>

text \<open>
  To state what the suggestion loop computes: the entries of \<open>self.commands\<close> the caller
  may use (every command for an admin, the commands that are not admin-only otherwise),
  the least distance from the candidate to their names, and the first name in iteration
  order at that distance.
\<close>

definition may_use :: "command_handler \<Rightarrow> bool \<Rightarrow> string \<times> nat \<Rightarrow> bool" where
  "may_use h is_admin entry = (is_admin \<or> \<not> c_admin (objects h ! snd entry))"

definition usable_names :: "command_handler \<Rightarrow> bool \<Rightarrow> (string \<times> nat) list \<Rightarrow> string list" where
  "usable_names h is_admin entries = map fst (filter (may_use h is_admin) entries)"

definition least_distance :: "string \<Rightarrow> string list \<Rightarrow> nat" where
  "least_distance cmd_name names = Min (levenshtein_distance cmd_name ` set names)"

definition first_closest :: "string \<Rightarrow> string list \<Rightarrow> string" where
  "first_closest cmd_name names =
     hd (filter (\<lambda>n. levenshtein_distance cmd_name n = least_distance cmd_name names) names)"

lemma suggestion_loop_append:
  "suggestion_loop h adm cmd (xs @ ys) acc = suggestion_loop h adm cmd ys (suggestion_loop h adm cmd xs acc)"
  by (induction xs arbitrary: acc) (auto simp: Let_def)

lemma usable_names_snoc:
  "usable_names h adm (xs @ [x]) =
     (if may_use h adm x then usable_names h adm xs @ [fst x] else usable_names h adm xs)"
  by (simp add: usable_names_def)

lemma least_distance_attained:
  "names \<noteq> [] \<Longrightarrow>
   filter (\<lambda>n. levenshtein_distance cmd n = least_distance cmd names) names \<noteq> []"
proof -
  assume ne: "names \<noteq> []"
  then have "Min (levenshtein_distance cmd ` set names) \<in> levenshtein_distance cmd ` set names"
    by (intro Min_in) auto
  then show ?thesis
    by (auto simp: least_distance_def filter_empty_conv)
qed

lemma least_distance_snoc:
  "names \<noteq> [] \<Longrightarrow>
   least_distance cmd (names @ [n]) = min (levenshtein_distance cmd n) (least_distance cmd names)"
  by (simp add: least_distance_def)

lemma least_distance_le:
  "n \<in> set names \<Longrightarrow> least_distance cmd names \<le> levenshtein_distance cmd n"
  by (simp add: least_distance_def)

lemma suggestion_loop_result:
  "suggestion_loop h adm cmd xs (None, None) =
     (if usable_names h adm xs = [] then (None, None)
      else (Some (first_closest cmd (usable_names h adm xs)),
            Some (least_distance cmd (usable_names h adm xs))))"
proof (induction xs rule: rev_induct)
  case Nil
  then show ?case by (simp add: usable_names_def)
next
  case (snoc x xs)
  obtain n i where x: "x = (n, i)" by (cases x)
  let ?P = "usable_names h adm xs"
  let ?d = "levenshtein_distance cmd"
  show ?case
  proof (cases "may_use h adm x")
    case False
    then show ?thesis
      using snoc by (auto simp: suggestion_loop_append usable_names_snoc x may_use_def Let_def)
  next
    case True
    show ?thesis
    proof (cases "?P = []")
      case e: True
      then show ?thesis
        using snoc True
        by (auto simp: suggestion_loop_append usable_names_snoc x may_use_def Let_def
            first_closest_def least_distance_def)
    next
      case ne: False
      have att: "filter (\<lambda>k. ?d k = least_distance cmd ?P) ?P \<noteq> []"
        using least_distance_attained [OF ne] .
      show ?thesis
      proof (cases "?d n < least_distance cmd ?P")
        case less: True
        have none: "filter (\<lambda>k. ?d k = ?d n) ?P = []"
          using less least_distance_le [of _ ?P cmd] by (force simp: filter_empty_conv)
        have "first_closest cmd (?P @ [n]) = n"
          using less none by (simp add: first_closest_def least_distance_snoc [OF ne] min_def)
        moreover have "least_distance cmd (?P @ [n]) = ?d n"
          using less by (simp add: least_distance_snoc [OF ne])
        ultimately show ?thesis
          using snoc True ne less
          by (auto simp: suggestion_loop_append usable_names_snoc x may_use_def Let_def)
      next
        case notless: False
        have l: "least_distance cmd (?P @ [n]) = least_distance cmd ?P"
          using notless by (simp add: least_distance_snoc [OF ne])
        have "first_closest cmd (?P @ [n]) = first_closest cmd ?P"
          using att by (simp add: first_closest_def l)
        then show ?thesis
          using snoc True ne notless l
          by (auto simp: suggestion_loop_append usable_names_snoc x may_use_def Let_def)
      qed
    qed
  qed
qed


lemma hlep_help: "levenshtein_distance ''hlep'' ''help'' = 2"
  by code_simp

text \<open>
  Claim C5, as the code has it. \<open>_send_suggested_command\<close> produces a suggestion (returns
  the name to run, or sends the question and returns \<open>None\<close>) exactly when the
  candidate has between 5 and 15 characters, both ends included, the caller may use at
  least one command, and the least Levenshtein distance to the names the caller may use
  is below the candidate's length and at most 2; the name suggested is the first one in
  iteration order at that least distance. The candidate \<open>hlep\<close> gets no suggestion
  whatever is registered; its distance to \<open>help\<close> is 2.
\<close>

theorem suggestion_rule:
  "send_suggested_command h cmd_name muc nick jid =
     (let is_admin = (case jid of None \<Rightarrow> False | Some j \<Rightarrow> j \<in> set (admins h));
          names = usable_names h is_admin (commands h);
          user = (if truthy_opt muc then Some (fmt muc @ ''/'' @ fmt nick) else jid)
      in if 5 \<le> length cmd_name \<and> length cmd_name \<le> 15 \<and> names \<noteq> [] \<and>
            least_distance cmd_name names < length cmd_name \<and> least_distance cmd_name names \<le> 2
         then (if run_command_suggestion h then (h, Some (first_closest cmd_name names))
               else (h\<lparr>sent := sent h @
                        [(user,
                          [CHR 0x27] @ cmd_name @ [CHR 0x27] @ '' is not a valid command, did you mean '' @
                          [CHR 0x27] @ first_closest cmd_name names @ [CHR 0x27] @ ''?'',
                          ''chat'')]\<rparr>, None))
         else (h, None)) \<and>
   levenshtein_distance ''hlep'' ''help'' = 2 \<and>
   send_suggested_command h ''hlep'' muc nick jid = (h, None)"
proof -
  have "send_suggested_command h ''hlep'' muc nick jid = (h, None)"
    by (simp add: send_suggested_command_def)
  moreover have "send_suggested_command h cmd_name muc nick jid =
     (let is_admin = (case jid of None \<Rightarrow> False | Some j \<Rightarrow> j \<in> set (admins h));
          names = usable_names h is_admin (commands h);
          user = (if truthy_opt muc then Some (fmt muc @ ''/'' @ fmt nick) else jid)
      in if 5 \<le> length cmd_name \<and> length cmd_name \<le> 15 \<and> names \<noteq> [] \<and>
            least_distance cmd_name names < length cmd_name \<and> least_distance cmd_name names \<le> 2
         then (if run_command_suggestion h then (h, Some (first_closest cmd_name names))
               else (h\<lparr>sent := sent h @
                        [(user,
                          [CHR 0x27] @ cmd_name @ [CHR 0x27] @ '' is not a valid command, did you mean '' @
                          [CHR 0x27] @ first_closest cmd_name names @ [CHR 0x27] @ ''?'',
                          ''chat'')]\<rparr>, None))
         else (h, None))"
    by (auto simp: send_suggested_command_def Let_def suggestion_loop_result fmt_def)
  ultimately show ?thesis
    using hlep_help by blast
qed

theorem suggestion_rule_witness:
  "(let status = \<lparr>c_name = ''status'', c_plugin = ''default_plugin'', c_function = (\<lambda>_. Returned),
                   c_category = None, c_aliases = [], c_cooldown = 2, c_hidden = False,
                   c_admin = False, c_last_used = Map.empty\<rparr>;
        h = \<lparr>objects = [status\<lparr>c_name := ''statu5'', c_admin := True\<rparr>, status, status\<lparr>c_name := ''stats''\<rparr>],
             commands = [(''statu5'', 0), (''status'', 1), (''stats'', 2)], categories = Map.empty,
             show_command_suggestion = True, run_command_suggestion = True, admins = [''admin@example.org''],
             rooms = Map.empty, default_prefix = ''.'', default_command_cooldown = 2, sent = [], ran = []\<rparr>
    in usable_names h False (commands h) = [''status'', ''stats''] \<and>
       levenshtein_distance ''statu'' ''status'' = 1 \<and>
       levenshtein_distance ''statu'' ''stats'' = 1 \<and>
       send_suggested_command h ''statu'' (Some ''room@muc'') (Some ''alice'') None = (h, Some ''status'') \<and>
       send_suggested_command h ''statu'' None None (Some ''admin@example.org'') = (h, Some ''statu5'') \<and>
       send_suggested_command h ''hlep'' (Some ''room@muc'') (Some ''alice'') None = (h, None))"
proof -
  let ?status = "\<lparr>c_name = ''status'', c_plugin = ''default_plugin'', c_function = (\<lambda>_. Returned),
                   c_category = None, c_aliases = [], c_cooldown = 2, c_hidden = False,
                   c_admin = False, c_last_used = Map.empty\<rparr>"
  let ?h = "\<lparr>objects = [?status\<lparr>c_name := ''statu5'', c_admin := True\<rparr>, ?status, ?status\<lparr>c_name := ''stats''\<rparr>],
             commands = [(''statu5'', 0), (''status'', 1), (''stats'', 2)], categories = Map.empty,
             show_command_suggestion = True, run_command_suggestion = True, admins = [''admin@example.org''],
             rooms = Map.empty, default_prefix = ''.'', default_command_cooldown = 2, sent = [], ran = []\<rparr>"
  have d: "levenshtein_distance ''statu'' ''status'' = 1"
    "levenshtein_distance ''statu'' ''stats'' = 1"
    "levenshtein_distance ''statu'' ''statu5'' = 1"
    by code_simp+
  show ?thesis
    using suggestion_rule [of ?h "''statu''" "Some ''room@muc''" "Some ''alice''" None]
      suggestion_rule [of ?h "''statu''" None None "Some ''admin@example.org''"]
    by (simp add: Let_def usable_names_def may_use_def d least_distance_def first_closest_def)
qed

text \<open>
  The claim as stated fails in two places: a candidate of exactly 15 characters does get
  a suggestion, and the distance from \<open>hlep\<close> to \<open>help\<close> is not 1.
\<close>

theorem suggestion_rule_counterexample:
  "(let cmd = \<lparr>c_name = ''abcdefghijklmn'', c_plugin = ''default_plugin'', c_function = (\<lambda>_. Returned),
                c_category = None, c_aliases = [], c_cooldown = 2, c_hidden = False,
                c_admin = False, c_last_used = Map.empty\<rparr>;
        h = \<lparr>objects = [cmd], commands = [(''abcdefghijklmn'', 0)], categories = Map.empty,
             show_command_suggestion = True, run_command_suggestion = True, admins = [],
             rooms = Map.empty, default_prefix = ''.'', default_command_cooldown = 2, sent = [], ran = []\<rparr>
    in length ''abcdefghijklmno'' = 15 \<and>
       send_suggested_command h ''abcdefghijklmno'' None None None = (h, Some ''abcdefghijklmn'') \<and>
       levenshtein_distance ''hlep'' ''help'' \<noteq> 1)"
proof -
  have d: "levenshtein_distance ''abcdefghijklmno'' ''abcdefghijklmn'' = 1"
    by code_simp
  show ?thesis
    by (simp add: Let_def send_suggested_command_def d hlep_help)
qed


lemma category_scan_ge_init: "t \<le> snd (category_scan cs u (f, t))"
proof (induction cs arbitrary: f t)
  case Nil
  then show ?case by simp
next
  case (Cons c cs)
  show ?case
    using Cons [where t = "get_last_used c u" and f = True] Cons [where t = t and f = f]
    by (auto simp: Let_def)
qed

lemma category_scan_ge_elem:
  "c \<in> set cs \<Longrightarrow> get_last_used c u \<noteq> 0 \<Longrightarrow> get_last_used c u \<le> snd (category_scan cs u (f, t))"
proof (induction cs arbitrary: f t)
  case Nil
  then show ?case by simp
next
  case (Cons x cs)
  show ?case
  proof (cases "c = x")
    case True
    then show ?thesis
      using Cons.prems(2) category_scan_ge_init [where t = "get_last_used x u" and cs = cs and u = u and f = True]
        category_scan_ge_init [where t = t and cs = cs and u = u and f = f]
      by (auto simp: Let_def)
  next
    case False
    then have "c \<in> set cs" using Cons.prems(1) by simp
    then show ?thesis
      using Cons.IH [where t = "get_last_used x u" and f = True] Cons.IH [where t = t and f = f]
        Cons.prems(2)
      by (auto simp: Let_def)
  qed
qed

lemma category_scan_max:
  "0 \<le> t \<Longrightarrow> \<forall>c \<in> set cs. 0 \<le> get_last_used c u \<Longrightarrow>
   snd (category_scan cs u (f, t)) = Max (insert t ((\<lambda>c. get_last_used c u) ` set cs))"
proof (induction cs arbitrary: f t)
  case Nil
  then show ?case by simp
next
  case (Cons c cs)
  let ?v = "get_last_used c u"
  let ?S = "(\<lambda>c. get_last_used c u) ` set cs"
  have fin: "finite ?S" by simp
  show ?case
  proof (cases "?v \<noteq> 0 \<and> ?v > t")
    case True
    then have "snd (category_scan (c # cs) u (f, t)) = Max (insert ?v ?S)"
      using Cons.IH [where t = ?v and f = True] Cons.prems by (simp add: Let_def)
    also have "\<dots> = Max (insert t (insert ?v ?S))"
    proof -
      have "?v \<le> Max (insert ?v ?S)"
        using fin by simp
      then have "t \<le> Max (insert ?v ?S)"
        using True by linarith
      then have "max t (Max (insert ?v ?S)) = Max (insert ?v ?S)"
        by (simp add: max_def)
      moreover have "Max (insert t (insert ?v ?S)) = max t (Max (insert ?v ?S))"
        using fin by simp
      ultimately show ?thesis by simp
    qed
    finally show ?thesis by simp
  next
    case False
    then have le: "?v \<le> t"
      using Cons.prems by (cases "?v = 0") auto
    have "snd (category_scan (c # cs) u (f, t)) = Max (insert t ?S)"
      using False Cons.IH [where t = t and f = f] Cons.prems by (auto simp: Let_def)
    also have "\<dots> = Max (insert t (insert ?v ?S))"
    proof -
      have "insert t (insert ?v ?S) = insert ?v (insert t ?S)" by auto
      moreover have "Max (insert ?v (insert t ?S)) = max ?v (Max (insert t ?S))"
        using fin by simp
      moreover have "t \<le> Max (insert t ?S)"
        using fin by simp
      then have "?v \<le> Max (insert t ?S)"
        using le by linarith
      then have "max ?v (Max (insert t ?S)) = Max (insert t ?S)"
        by (simp add: max_def)
      ultimately show ?thesis by simp
    qed
    finally show ?thesis by simp
  qed
qed

lemma cooldown_message_fields [simp]:
  "objects (cooldown_message h self r n u f) = objects h"
  "ran (cooldown_message h self r n u f) = ran h"
  "commands (cooldown_message h self r n u f) = commands h"
  "categories (cooldown_message h self r n u f) = categories h"
  by (simp_all add: cooldown_message_def Let_def)

lemma call_blocked:
  "current_time - snd (effective_last_used h (objects h ! ident) (user_key cp)) < c_cooldown (objects h ! ident) \<Longrightarrow>
   call h ident cp current_time =
     (cooldown_message h (objects h ! ident)
        (py_int (c_cooldown (objects h ! ident) -
                 (current_time - snd (effective_last_used h (objects h ! ident) (user_key cp)))))
        (c_name (objects h ! ident)) (user_key cp)
        (fst (effective_last_used h (objects h ! ident) (user_key cp))), Returned)"
  by (simp add: call_def Let_def)

lemma call_runs:
  "\<not> current_time - snd (effective_last_used h (objects h ! ident) (user_key cp)) < c_cooldown (objects h ! ident) \<Longrightarrow>
   call h ident cp current_time =
     (h\<lparr>objects := (objects h)[ident := (objects h ! ident)
                       \<lparr>c_last_used := (c_last_used (objects h ! ident))(user_key cp \<mapsto> current_time)\<rparr>],
         ran := ran h @ [(c_name (objects h ! ident), cp)]\<rparr>,
      c_function (objects h ! ident) cp)"
  by (simp add: call_def Let_def)


lemma effective_ge_member:
  assumes "c_category self = Some k" "k \<noteq> []" "categories h k = Some members" "i \<in> set members"
    and "get_last_used (objects h ! i) u \<noteq> 0"
  shows "get_last_used (objects h ! i) u \<le> snd (effective_last_used h self u)"
  using assms
  by (simp add: effective_last_used_def category_scan_ge_elem)

lemma effective_max:
  assumes "c_category self = Some k" "k \<noteq> []" "categories h k = Some members"
    and "0 \<le> get_last_used self u" "\<forall>i \<in> set members. 0 \<le> get_last_used (objects h ! i) u"
  shows "snd (effective_last_used h self u) =
           Max (insert (get_last_used self u) ((\<lambda>i. get_last_used (objects h ! i) u) ` set members))"
  using assms
  by (simp add: effective_last_used_def category_scan_max image_image)


lemma py_int_floor: "0 \<le> x \<Longrightarrow> py_int x = \<lfloor>x\<rfloor>"
  by (simp add: py_int_def)

text \<open>
  A handler with the two commands \<open>ping\<close> (cooldown 2) and \<open>pong\<close> (cooldown 5) of the
  category \<open>fun\<close>, the parameters of a message of \<open>alice\<close> in a room, and the handler
  after \<open>alice\<close> has run \<open>ping\<close> at time 100.
\<close>

definition ex_ping :: command where
  "ex_ping = \<lparr>c_name = ''ping'', c_plugin = ''default_plugin'', c_function = (\<lambda>_. Returned),
              c_category = Some ''fun'', c_aliases = [], c_cooldown = 2, c_hidden = False,
              c_admin = False, c_last_used = Map.empty\<rparr>"

definition ex_pong :: command where
  "ex_pong = ex_ping\<lparr>c_name := ''pong'', c_cooldown := 5\<rparr>"

definition ex_handler :: command_handler where
  "ex_handler = \<lparr>objects = [ex_ping, ex_pong], commands = [(''ping'', 0), (''pong'', 1)],
                 categories = [''fun'' \<mapsto> [0, 1]], show_command_suggestion = True,
                 run_command_suggestion = True, admins = [], rooms = Map.empty,
                 default_prefix = ''.'', default_command_cooldown = 2, sent = [], ran = []\<rparr>"

definition ex_params :: "string \<Rightarrow> command_params" where
  "ex_params body = \<lparr>cp_body = body, cp_muc = Some ''room@muc'', cp_nick = Some ''alice'',
                     cp_jid = None, cp_quote = None\<rparr>"

definition ex_used :: command_handler where
  "ex_used = ex_handler\<lparr>objects := [ex_ping\<lparr>c_last_used := [Some ''room@muc/alice'' \<mapsto> 100]\<rparr>, ex_pong],
                        ran := [(''ping'', ex_params ''.ping'')]\<rparr>"

lemma ex_user_key: "user_key (ex_params body) = Some ''room@muc/alice''"
  by (simp add: user_key_def ex_params_def fmt_def truthy_opt_def)

lemma ex_first_call: "call ex_handler 0 (ex_params ''.ping'') 100 = (ex_used, Returned)"
proof -
  have e0: "effective_last_used ex_handler (objects ex_handler ! 0) (Some ''room@muc/alice'') = (False, 0)"
    by (simp add: effective_last_used_def get_last_used_def ex_handler_def ex_ping_def ex_pong_def)
  show ?thesis
    unfolding call_def Let_def ex_user_key e0
    by (simp add: ex_handler_def ex_ping_def ex_used_def)
qed

lemma ex_used_effective:
  "effective_last_used ex_used (objects ex_used ! 1) (Some ''room@muc/alice'') = (True, 100)"
  by (simp add: effective_last_used_def get_last_used_def ex_used_def ex_handler_def ex_ping_def ex_pong_def)


lemma ex_pong_blocked:
  "call ex_used 1 (ex_params ''.pong'') 103 =
     (ex_used\<lparr>sent := [(Some ''room@muc/alice'',
                         ''Commands of category '' @ [CHR 0x27] @ ''fun'' @ [CHR 0x27] @
                         '' are on cooldown. Try again in 3 second(s).'', ''chat'')]\<rparr>, Returned)"
proof -
  have s3: "str_int 3 = ''3''" by code_simp
  show ?thesis
    unfolding call_def Let_def ex_user_key ex_used_effective
    by (simp add: ex_used_def ex_handler_def ex_pong_def ex_ping_def cooldown_message_def py_int_def
        fmt_def s3)
qed

lemma ex_pong_runs:
  "snd (call ex_used 1 (ex_params ''.pong'') 106) = Returned \<and>
   ran (fst (call ex_used 1 (ex_params ''.pong'') 106)) =
     [(''ping'', ex_params ''.ping''), (''pong'', ex_params ''.pong'')]"
  unfolding call_def Let_def ex_user_key ex_used_effective
  by (simp add: ex_used_def ex_handler_def ex_pong_def ex_ping_def)

text \<open>
  Registration puts a command with a category into the list of that category, under the
  index of the new object; the example handler is what registering \<open>ping\<close> and then
  \<open>pong\<close> builds.
\<close>

lemma register_command_joins_category:
  assumes "k \<noteq> []"
  shows "objects (register_command h cname plugin_name fn (Some k) al cd hid adm) ! length (objects h) =
           \<lparr>c_name = cname, c_plugin = plugin_name, c_function = fn, c_category = Some k,
             c_aliases = (case al of None \<Rightarrow> [] | Some l \<Rightarrow> l),
             c_cooldown = (case cd of None \<Rightarrow> default_command_cooldown h
                           | Some x \<Rightarrow> if x \<noteq> 0 then x else default_command_cooldown h),
             c_hidden = hid, c_admin = adm, c_last_used = Map.empty\<rparr>"
    and "categories (register_command h cname plugin_name fn (Some k) al cd hid adm) k =
           Some ((case categories h k of None \<Rightarrow> [] | Some l \<Rightarrow> l) @ [length (objects h)])"
    and "map_of (commands (register_command h cname plugin_name fn (Some k) al cd hid adm)) cname =
           Some (length (objects h))"
  using assms by (simp_all add: register_command_def Let_def update_conv')

lemma ex_handler_registered:
  "register_command
     (register_command (ex_handler\<lparr>objects := [], commands := [], categories := Map.empty\<rparr>)
        ''ping'' ''default_plugin'' (\<lambda>_. Returned) (Some ''fun'') None None False False)
     ''pong'' ''default_plugin'' (\<lambda>_. Returned) (Some ''fun'') None (Some 5) False False = ex_handler"
  by (simp add: register_command_def Let_def ex_handler_def ex_ping_def ex_pong_def)

text \<open>
  Claim C7. Let \<open>c1\<close> and \<open>c2\<close> be distinct commands, \<open>c2\<close> of category \<open>k\<close> and
  \<open>c1\<close> in the list of that category, and let user \<open>u\<close> invoke \<open>c1\<close> successfully at
  time \<open>t1\<close>. The invocation runs the handler of \<open>c1\<close> and sets the timestamp of \<open>u\<close>
  in \<open>c1\<close> only; every other command object is untouched. An invocation of \<open>c2\<close> by
  \<open>u\<close> at a time \<open>t2\<close> less than the cooldown of \<open>c2\<close> after \<open>t1\<close> is rejected with
  a cooldown notice: no handler runs, no timestamp changes. The time checked for \<open>c2\<close>
  is the most recent of its own timestamp and those of all commands of the category
  (timestamps being non-negative clock readings), and once the cooldown of \<open>c2\<close> has
  passed since that time the invocation runs.
\<close>

theorem category_cooldown_couples_siblings:
  assumes "c1 \<noteq> c2" and "c1 < length (objects h)"
    and "c_category (objects h ! c2) = Some k" and "k \<noteq> []"
    and "categories h k = Some members" and "c1 \<in> set members"
    and "user_key cp = u" and "user_key cp' = u" and "0 < t1"
    and "c_cooldown (objects h ! c1) \<le> t1 - snd (effective_last_used h (objects h ! c1) u)"
  shows
    "let h1 = fst (call h c1 cp t1);
         self2 = objects h1 ! c2;
         L = snd (effective_last_used h1 self2 u)
     in snd (call h c1 cp t1) = c_function (objects h ! c1) cp \<and>
        ran h1 = ran h @ [(c_name (objects h ! c1), cp)] \<and>
        objects h1 ! c1 = (objects h ! c1)\<lparr>c_last_used := (c_last_used (objects h ! c1))(u \<mapsto> t1)\<rparr> \<and>
        (\<forall>j. j \<noteq> c1 \<longrightarrow> objects h1 ! j = objects h ! j) \<and>
        t1 \<le> L \<and>
        (t2 - t1 < c_cooldown self2 \<longrightarrow>
           call h1 c2 cp' t2 =
             (cooldown_message h1 self2 \<lfloor>c_cooldown self2 - (t2 - L)\<rfloor> (c_name self2) u
                (fst (effective_last_used h1 self2 u)), Returned) \<and>
           ran (fst (call h1 c2 cp' t2)) = ran h1 \<and>
           objects (fst (call h1 c2 cp' t2)) = objects h1) \<and>
        (0 \<le> get_last_used self2 u \<and> (\<forall>i \<in> set members. 0 \<le> get_last_used (objects h1 ! i) u) \<longrightarrow>
           L = Max (insert (get_last_used self2 u)
                      ((\<lambda>i. get_last_used (objects h1 ! i) u) ` set members))) \<and>
        (c_cooldown self2 \<le> t2 - L \<longrightarrow>
           snd (call h1 c2 cp' t2) = c_function self2 cp' \<and>
           ran (fst (call h1 c2 cp' t2)) = ran h1 @ [(c_name self2, cp')])"
proof -
  let ?self1 = "objects h ! c1"
  let ?h1 = "h\<lparr>objects := (objects h)[c1 := ?self1\<lparr>c_last_used := (c_last_used ?self1)(u \<mapsto> t1)\<rparr>],
               ran := ran h @ [(c_name ?self1, cp)]\<rparr>"
  let ?self2 = "objects ?h1 ! c2"
  let ?L = "snd (effective_last_used ?h1 ?self2 u)"
  have run1: "call h c1 cp t1 = (?h1, c_function ?self1 cp)"
    using call_runs [of t1 h c1 cp] assms(7,10) by simp
  have o1: "objects ?h1 ! c1 = ?self1\<lparr>c_last_used := (c_last_used ?self1)(u \<mapsto> t1)\<rparr>"
    using assms(2) by simp
  have o2: "objects ?h1 ! j = objects h ! j" if "j \<noteq> c1" for j
    using that by simp
  have s2: "?self2 = objects h ! c2"
    using assms(1) by simp
  have cat2: "c_category ?self2 = Some k" "categories ?h1 k = Some members"
    using assms(3,5) s2 by simp_all
  have "get_last_used (objects ?h1 ! c1) u = t1"
    using assms(2) by (simp add: get_last_used_def)
  then have ge: "t1 \<le> ?L"
    using effective_ge_member [OF cat2(1) assms(4) cat2(2) assms(6), of u] assms(9) by simp
  have blocked: "call ?h1 c2 cp' t2 =
             (cooldown_message ?h1 ?self2 \<lfloor>c_cooldown ?self2 - (t2 - ?L)\<rfloor> (c_name ?self2) u
                (fst (effective_last_used ?h1 ?self2 u)), Returned)"
    if "t2 - t1 < c_cooldown ?self2"
  proof -
    have lt: "t2 - ?L < c_cooldown ?self2"
      using that ge by linarith
    then have "0 \<le> c_cooldown ?self2 - (t2 - ?L)" by linarith
    then show ?thesis
      using call_blocked [of t2 ?h1 c2 cp'] lt assms(8) by (simp add: py_int_floor)
  qed
  have mx: "?L = Max (insert (get_last_used ?self2 u)
                      ((\<lambda>i. get_last_used (objects ?h1 ! i) u) ` set members))"
    if "0 \<le> get_last_used ?self2 u \<and> (\<forall>i \<in> set members. 0 \<le> get_last_used (objects ?h1 ! i) u)"
    using effective_max [OF cat2(1) assms(4) cat2(2), of u] that by blast
  have runs2: "snd (call ?h1 c2 cp' t2) = c_function ?self2 cp' \<and>
           ran (fst (call ?h1 c2 cp' t2)) = ran ?h1 @ [(c_name ?self2, cp')]"
    if "c_cooldown ?self2 \<le> t2 - ?L"
  proof -
    have "\<not> t2 - ?L < c_cooldown ?self2" using that by linarith
    then show ?thesis
      using call_runs [of t2 ?h1 c2 cp'] assms(8) by simp
  qed
  show ?thesis
    unfolding Let_def run1 fst_conv snd_conv
    using o1 o2 ge blocked mx runs2 by (simp del: nth_list_update_eq)
qed

theorem category_cooldown_couples_siblings_witness:
  "call ex_handler 0 (ex_params ''.ping'') 100 = (ex_used, Returned) \<and>
   100 \<le> snd (effective_last_used ex_used (objects ex_used ! 1) (Some ''room@muc/alice'')) \<and>
   call ex_used 1 (ex_params ''.pong'') 103 =
     (ex_used\<lparr>sent := [(Some ''room@muc/alice'',
                         ''Commands of category '' @ [CHR 0x27] @ ''fun'' @ [CHR 0x27] @
                         '' are on cooldown. Try again in 3 second(s).'', ''chat'')]\<rparr>, Returned) \<and>
   snd (call ex_used 1 (ex_params ''.pong'') 106) = Returned \<and>
   ran (fst (call ex_used 1 (ex_params ''.pong'') 106)) =
     [(''ping'', ex_params ''.ping''), (''pong'', ex_params ''.pong'')]"
proof -
  have hyps: "(0::nat) \<noteq> 1" "0 < length (objects ex_handler)"
    "c_category (objects ex_handler ! 1) = Some ''fun''" "''fun'' \<noteq> []"
    "categories ex_handler ''fun'' = Some [0, 1]" "(0::nat) \<in> set [0, 1]" "(0::real) < 100"
    by (simp_all add: ex_handler_def ex_ping_def ex_pong_def)
  have pass: "c_cooldown (objects ex_handler ! 0)
      \<le> 100 - snd (effective_last_used ex_handler (objects ex_handler ! 0) (Some ''room@muc/alice''))"
    by (simp add: effective_last_used_def get_last_used_def ex_handler_def ex_ping_def ex_pong_def)
  note t = category_cooldown_couples_siblings [OF hyps(1-6) ex_user_key [of "''.ping''"]
      ex_user_key [of "''.pong''"] hyps(7) pass, where ?t2.0 = 103]
  have "100 \<le> snd (effective_last_used ex_used (objects ex_used ! 1) (Some ''room@muc/alice''))"
    using t unfolding Let_def ex_first_call fst_conv snd_conv
    by (elim conjE)
  then show ?thesis
    using ex_first_call ex_pong_blocked ex_pong_runs by simp
qed









text \<open>
  A message that resolves to a registered command is handed to the checks and the call;
  when the checks pass and the command's function raises, the exception is the outcome.
\<close>

lemma handle_command_registered:
  assumes "startswith (lower (strip msg_body)) prefix"
    and "length prefix < length (lower (strip msg_body))"
    and "first_token (drop (length prefix) (lower (strip msg_body))) = Inr token"
    and "resolve_aliases (map (\<lambda>(_, i). objects h ! i) (commands h)) token = cmd_name"
    and "map_of (commands h) cmd_name = Some ident"
  shows "handle_command gj h msg_body prefix muc nick jid quote now =
           execute_command h cmd_name msg_body muc nick
             (if \<not> truthy_opt jid \<and> truthy_opt muc \<and> truthy_opt nick then gj (fmt muc) (fmt nick) else jid)
             quote now"
  using assms by (simp add: handle_command_def Let_def)

lemma execute_command_handler_raises:
  assumes "map_of (commands h) cmd_name = Some ident"
    and "\<not> (truthy_opt muc \<and>
            cmd_name \<in> set (case room_list h (fmt muc) ''disabled_commands'' of None \<Rightarrow> [] | Some l \<Rightarrow> l))"
    and "\<not> (truthy_opt muc \<and> room_refuses h (fmt muc) (objects h ! ident))"
    and "c_admin (objects h ! ident) \<longrightarrow> (case jid of None \<Rightarrow> False | Some j \<Rightarrow> j \<in> set (admins h))"
    and "cp = \<lparr>cp_body = msg_body, cp_muc = muc, cp_nick = nick, cp_jid = jid, cp_quote = quote\<rparr>"
    and "c_cooldown (objects h ! ident) \<le> now - snd (effective_last_used h (objects h ! ident) (user_key cp))"
    and "c_function (objects h ! ident) cp = Raised e"
  shows "execute_command h cmd_name msg_body muc nick jid quote now =
           (h\<lparr>objects := (objects h)[ident := (objects h ! ident)
                       \<lparr>c_last_used := (c_last_used (objects h ! ident))(user_key cp \<mapsto> now)\<rparr>],
              ran := ran h @ [(c_name (objects h ! ident), cp)]\<rparr>,
            Inl (HandlerError e))"
proof -
  have "\<not> now - snd (effective_last_used h (objects h ! ident) (user_key cp)) < c_cooldown (objects h ! ident)"
    using assms(6) by linarith
  then have c: "call h ident cp now =
     (h\<lparr>objects := (objects h)[ident := (objects h ! ident)
                       \<lparr>c_last_used := (c_last_used (objects h ! ident))(user_key cp \<mapsto> now)\<rparr>],
         ran := ran h @ [(c_name (objects h ! ident), cp)]\<rparr>,
      Raised e)"
    using call_runs [of now h ident cp] assms(7) by simp
  show ?thesis
    unfolding execute_command_def Let_def assms(5)
    using assms(1-4) c [unfolded assms(5)] by auto
qed

text \<open>A handler with the single command \<open>boom\<close>, whose function raises.\<close>

definition ex_boom :: command where
  "ex_boom = \<lparr>c_name = ''boom'', c_plugin = ''debug_plugin'',
              c_function = (\<lambda>_. Raised ''RuntimeError''), c_category = None, c_aliases = [],
              c_cooldown = 2, c_hidden = False, c_admin = False, c_last_used = Map.empty\<rparr>"

definition ex_boom_handler :: command_handler where
  "ex_boom_handler =
     \<lparr>objects = [ex_boom], commands = [(''boom'', 0)], categories = Map.empty,
      show_command_suggestion = True, run_command_suggestion = True, admins = [],
      rooms = Map.empty, default_prefix = ''.'', default_command_cooldown = 2, sent = [],
      ran = []\<rparr>"

lemma ex_boom_body:
  "lower (strip ''.boom'') = ''.boom''"
  "first_token ''boom'' = Inr ''boom''"
  by code_simp+

text \<open>
  Claim C1 does not hold of the code. The room message \<open>.boom\<close> resolves to the
  registered command \<open>boom\<close>, which the room does not refuse, the sender may use and
  which is not on cooldown; its handler raises. \<open>Command.call\<close> and \<open>_handle_command\<close>
  have no \<open>try\<close>: the exception leaves \<open>_handle_command\<close>, which returns nothing,
  after the invocation has been recorded and the sender's timestamp set.
\<close>

theorem handler_exception_propagates:
  "handle_command (\<lambda>_ _. None) ex_boom_handler ''.boom'' ''.'' (Some ''room@muc'') (Some ''alice'')
     None None 100 =
     (ex_boom_handler
        \<lparr>objects := [ex_boom\<lparr>c_last_used := [Some ''room@muc/alice'' \<mapsto> 100]\<rparr>],
         ran := [(''boom'', \<lparr>cp_body = ''.boom'', cp_muc = Some ''room@muc'', cp_nick = Some ''alice'',
                            cp_jid = None, cp_quote = None\<rparr>)]\<rparr>,
      Inl (HandlerError ''RuntimeError'')) \<and>
   c_function ex_boom
     \<lparr>cp_body = ''.boom'', cp_muc = Some ''room@muc'', cp_nick = Some ''alice'', cp_jid = None,
      cp_quote = None\<rparr> = Raised ''RuntimeError''"
proof -
  let ?cp = "\<lparr>cp_body = ''.boom'', cp_muc = Some ''room@muc'', cp_nick = Some ''alice'',
              cp_jid = None, cp_quote = None\<rparr>"
  have o: "objects ex_boom_handler ! 0 = ex_boom"
    by (simp add: ex_boom_handler_def)
  have u: "user_key ?cp = Some ''room@muc/alice''"
    by (simp add: user_key_def fmt_def truthy_opt_def)
  have h: "handle_command (\<lambda>_ _. None) ex_boom_handler ''.boom'' ''.'' (Some ''room@muc'') (Some ''alice'')
             None None 100 =
           execute_command ex_boom_handler ''boom'' ''.boom'' (Some ''room@muc'') (Some ''alice'') None None 100"
    using handle_command_registered [of "''.boom''" "''.''" "''boom''" ex_boom_handler "''boom''" 0
        "\<lambda>_ _. None" "Some ''room@muc''" "Some ''alice''" None None 100]
    by (simp add: ex_boom_body startswith_def ex_boom_handler_def ex_boom_def truthy_opt_def)
  have f: "c_function ex_boom ?cp = Raised ''RuntimeError''"
    by (simp add: ex_boom_def)
  have e: "execute_command ex_boom_handler ''boom'' ''.boom'' (Some ''room@muc'') (Some ''alice'') None None 100 =
           (ex_boom_handler\<lparr>objects := (objects ex_boom_handler)[0 := (objects ex_boom_handler ! 0)
                       \<lparr>c_last_used := (c_last_used (objects ex_boom_handler ! 0))(user_key ?cp \<mapsto> 100)\<rparr>],
              ran := ran ex_boom_handler @ [(c_name (objects ex_boom_handler ! 0), ?cp)]\<rparr>,
            Inl (HandlerError ''RuntimeError''))"
  proof (rule execute_command_handler_raises)
    show "map_of (commands ex_boom_handler) ''boom'' = Some 0"
      by (simp add: ex_boom_handler_def)
    show "\<not> (truthy_opt (Some ''room@muc'') \<and>
            ''boom'' \<in> set (case room_list ex_boom_handler (fmt (Some ''room@muc'')) ''disabled_commands'' of
                              None \<Rightarrow> [] | Some l \<Rightarrow> l))"
      by (simp add: room_list_def ex_boom_handler_def)
    show "\<not> (truthy_opt (Some ''room@muc'') \<and>
             room_refuses ex_boom_handler (fmt (Some ''room@muc'')) (objects ex_boom_handler ! 0))"
      by (simp add: room_refuses_def room_list_def ex_boom_handler_def)
    show "c_admin (objects ex_boom_handler ! 0) \<longrightarrow>
          (case None of None \<Rightarrow> False | Some j \<Rightarrow> j \<in> set (admins ex_boom_handler))"
      by (simp add: o ex_boom_def)
    show "?cp = ?cp" ..
    show "c_cooldown (objects ex_boom_handler ! 0)
          \<le> 100 - snd (effective_last_used ex_boom_handler (objects ex_boom_handler ! 0) (user_key ?cp))"
      by (simp add: o u effective_last_used_def get_last_used_def ex_boom_def)
    show "c_function (objects ex_boom_handler ! 0) ?cp = Raised ''RuntimeError''"
      by (simp add: o ex_boom_def)
  qed
  have r: "ex_boom_handler\<lparr>objects := (objects ex_boom_handler)[0 := (objects ex_boom_handler ! 0)
                       \<lparr>c_last_used := (c_last_used (objects ex_boom_handler ! 0))(user_key ?cp \<mapsto> 100)\<rparr>],
              ran := ran ex_boom_handler @ [(c_name (objects ex_boom_handler ! 0), ?cp)]\<rparr> =
           ex_boom_handler
        \<lparr>objects := [ex_boom\<lparr>c_last_used := [Some ''room@muc/alice'' \<mapsto> 100]\<rparr>],
         ran := [(''boom'', ?cp)]\<rparr>"
    unfolding o u by (simp add: ex_boom_handler_def ex_boom_def)
  show ?thesis
    unfolding h e r using f by simp
qed

theorem handler_exception_propagates_witness:
  "startswith (lower (strip ''.boom'')) ''.'' \<and>
   length ''.'' < length (lower (strip ''.boom'')) \<and>
   map_of (commands ex_boom_handler) ''boom'' = Some 0 \<and>
   snd (handle_command (\<lambda>_ _. None) ex_boom_handler ''.boom'' ''.'' (Some ''room@muc'') (Some ''alice'')
          None None 100) = Inl (HandlerError ''RuntimeError'')"
proof -
  have "snd (handle_command (\<lambda>_ _. None) ex_boom_handler ''.boom'' ''.'' (Some ''room@muc'') (Some ''alice'')
          None None 100) = Inl (HandlerError ''RuntimeError'')"
    using handler_exception_propagates by simp
  then show ?thesis
    by (simp add: ex_boom_body startswith_def ex_boom_handler_def)
qed


end
